theory Spec2Isabelle
  imports Main "HOL-Library.Multiset"
begin

section \<open>JavaScript values\<close>

text \<open>
  A JavaScript number as the cache layer meets it: an integer (durations in minutes,
  instants and ages in milliseconds) or \<open>NaN\<close>, which \<open>parseInt\<close> returns on a string
  without digits and \<open>new Date(s).getTime()\<close> on a string that is no date.  Every
  comparison with \<open>NaN\<close> is false and arithmetic on it gives \<open>NaN\<close>.  Integers are exact
  here; JavaScript is exact up to \<open>2 ^ 53\<close>.
\<close>

datatype js_number = NaN | Num int

fun js_minus :: "js_number \<Rightarrow> js_number \<Rightarrow> js_number" where
  "js_minus (Num a) (Num b) = Num (a - b)"
| "js_minus _ _ = NaN"

fun js_times :: "js_number \<Rightarrow> js_number \<Rightarrow> js_number" where
  "js_times (Num a) (Num b) = Num (a * b)"
| "js_times _ _ = NaN"

fun js_less :: "js_number \<Rightarrow> js_number \<Rightarrow> bool" where
  "js_less (Num a) (Num b) = (a < b)"
| "js_less _ _ = False"

fun js_ge :: "js_number \<Rightarrow> js_number \<Rightarrow> bool" where
  "js_ge (Num a) (Num b) = (a \<ge> b)"
| "js_ge _ _ = False"

text \<open>\<open>v || d\<close> on an optional string: \<open>undefined\<close> and the empty string are falsy.\<close>

definition or_default :: "string option \<Rightarrow> string \<Rightarrow> string" where
  "or_default v d = (case v of None \<Rightarrow> d | Some s \<Rightarrow> if s = [] then d else s)"

text \<open>\<open>v || null\<close> on an optional string.\<close>

definition or_null :: "string option \<Rightarrow> string option" where
  "or_null v = (case v of None \<Rightarrow> None | Some s \<Rightarrow> if s = [] then None else Some s)"

text \<open>
  \<open>parseInt(s, 10)\<close>: leading white space is skipped, one sign is read, then the longest
  run of decimal digits; no digit gives \<open>NaN\<close>.  Strings are ASCII here, so the white
  space is tab, line feed, vertical tab, form feed, carriage return and space.
\<close>

definition is_space :: "char \<Rightarrow> bool" where
  "is_space c = ((of_char c :: nat) \<in> {9, 10, 11, 12, 13, 32})"

definition is_digit :: "char \<Rightarrow> bool" where
  "is_digit c = (48 \<le> (of_char c :: nat) \<and> (of_char c :: nat) \<le> 57)"

definition digit_value :: "char \<Rightarrow> int" where
  "digit_value c = of_char c - 48"

definition parseInt :: "string \<Rightarrow> js_number" where
  "parseInt s =
     (let t = dropWhile is_space s;
          negative = (t \<noteq> [] \<and> hd t = CHR ''-'');
          signed = (t \<noteq> [] \<and> (hd t = CHR ''-'' \<or> hd t = CHR ''+''));
          ds = takeWhile is_digit (if signed then tl t else t)
      in if ds = [] then NaN
         else Num ((if negative then -1 else 1) * foldl (\<lambda>a c. a * 10 + digit_value c) 0 ds))"

section \<open>Data model\<close>

datatype TranscriptStatus = Ready | Processing | Failed

text \<open>
  Modelled from the spec: the declarations of \<open>TranscriptSentence\<close>, \<open>Transcript\<close> and
  \<open>Video\<close> live in \<open>types.ts\<close>, which is not among the sources; the fields are those of
  the spec's data model that the code reads.  Sentence times are carried, never computed
  with.
\<close>

record TranscriptSentence =
  sentence_text :: string
  startSeconds :: int
  endSeconds :: int

record Transcript =
  status :: TranscriptStatus
  language :: string
  transcript_text :: string
  sentences :: "TranscriptSentence list"

record Video =
  id_v :: string
  name :: string
  description :: string
  updatedAt :: string
  views :: int
  transcript :: "Transcript option"

text \<open>
  \<open>VideoCache\<close> of \<open>cache.ts\<close>.  \<open>fetchedAt\<close> is an ISO string in the source, read only
  through \<open>new Date(fetchedAt).getTime()\<close>; the model keeps that reading: the instant in
  milliseconds, or \<open>NaN\<close> for a string that is no date.
\<close>

record VideoCache =
  videos :: "Video list"
  fetchedAt :: js_number
  playlistId :: "string option"

section \<open>Cache freshness policy (\<open>cache.ts\<close>)\<close>

definition CACHE_FRESH_THRESHOLD_MS :: int where
  "CACHE_FRESH_THRESHOLD_MS = 5 * 60 * 1000"

text \<open>
  \<open>getPreferenceValues()\<close> either throws or returns the preference object, whose
  \<open>cacheDuration\<close> may be missing.
\<close>

datatype preferences = PreferencesThrow | Preferences "string option"

definition getCacheDuration :: "preferences \<Rightarrow> js_number" where
  "getCacheDuration prefs =
     (case prefs of
        PreferencesThrow \<Rightarrow> Num 30
      | Preferences cacheDuration \<Rightarrow> parseInt (or_default cacheDuration ''30''))"

text \<open>\<open>now\<close> is \<open>Date.now()\<close>, in milliseconds.\<close>

definition getCacheAge :: "int \<Rightarrow> VideoCache \<Rightarrow> js_number" where
  "getCacheAge now cache = js_minus (Num now) (fetchedAt cache)"

definition isCacheFresh :: "preferences \<Rightarrow> int \<Rightarrow> VideoCache \<Rightarrow> bool" where
  "isCacheFresh prefs now cache =
     (let duration = getCacheDuration prefs in
      if duration = Num 0 then False
      else let age = js_minus (Num now) (fetchedAt cache)
           in js_less age (Num CACHE_FRESH_THRESHOLD_MS))"

definition isCacheStale :: "preferences \<Rightarrow> int \<Rightarrow> VideoCache \<Rightarrow> bool" where
  "isCacheStale prefs now cache =
     (let duration = getCacheDuration prefs in
      if duration = Num 0 then False
      else let age = js_minus (Num now) (fetchedAt cache);
               maxAge = js_times (js_times duration (Num 60)) (Num 1000)
           in js_ge age (Num CACHE_FRESH_THRESHOLD_MS) \<and> js_less age maxAge)"

definition isCacheExpired :: "preferences \<Rightarrow> int \<Rightarrow> VideoCache \<Rightarrow> bool" where
  "isCacheExpired prefs now cache =
     (let duration = getCacheDuration prefs in
      if duration = Num 0 then False
      else let age = js_minus (Num now) (fetchedAt cache);
               maxAge = js_times (js_times duration (Num 60)) (Num 1000)
           in js_ge age maxAge)"

section \<open>Persistent store (\<open>LocalStorage\<close>) and the video cache (\<open>cache.ts\<close>)\<close>

datatype error =
    StorageError
  | SyntaxError
  | ConfigError
  | NetworkError
  | HttpError nat string string

text \<open>\<open>CachedTranscript\<close> and \<open>TranscriptCache\<close> of \<open>cache.ts\<close>; a \<open>Record\<close> is a map.\<close>

record CachedTranscript =
  cached_status :: TranscriptStatus
  cached_text :: string
  videoName :: string
  cached_sentences :: "TranscriptSentence list option"

record TranscriptCache =
  transcripts :: "string \<rightharpoonup> CachedTranscript"
  transcripts_fetchedAt :: js_number

text \<open>
  A stored string is kept as what \<open>JSON.parse\<close> makes of it: \<open>JSON.stringify\<close> of a
  cache object parses back to that object; the empty string, which \<open>!cached\<close> rejects,
  and text that is no JSON, on which \<open>JSON.parse\<close> throws, are \<open>Malformed\<close>.  JSON of
  another shape, which the code would hand on under a type it does not have, has no
  value here: a cache key holds what the cache functions wrote under it.  The store
  itself may refuse a read or a write; the cache functions catch that.
\<close>

datatype json_text =
    Malformed
  | VideoCacheText VideoCache
  | TranscriptCacheText TranscriptCache

record LocalStorage =
  items :: "string \<rightharpoonup> json_text"
  readFails :: bool
  writeFails :: bool

definition getItem :: "LocalStorage \<Rightarrow> string \<Rightarrow> error + json_text option" where
  "getItem ls key = (if readFails ls then Inl StorageError else Inr (items ls key))"

definition setItem :: "LocalStorage \<Rightarrow> string \<Rightarrow> json_text \<Rightarrow> error + LocalStorage" where
  "setItem ls key v =
     (if writeFails ls then Inl StorageError else Inr (ls\<lparr>items := (items ls)(key \<mapsto> v)\<rparr>))"

definition removeItem :: "LocalStorage \<Rightarrow> string \<Rightarrow> error + LocalStorage" where
  "removeItem ls key =
     (if writeFails ls then Inl StorageError else Inr (ls\<lparr>items := (items ls)(key := None)\<rparr>))"

definition parseVideoCache :: "json_text \<Rightarrow> error + VideoCache" where
  "parseVideoCache t = (case t of VideoCacheText c \<Rightarrow> Inr c | _ \<Rightarrow> Inl SyntaxError)"

definition parseTranscriptCache :: "json_text \<Rightarrow> error + TranscriptCache" where
  "parseTranscriptCache t = (case t of TranscriptCacheText c \<Rightarrow> Inr c | _ \<Rightarrow> Inl SyntaxError)"

definition CACHE_KEY_PREFIX :: string where
  "CACHE_KEY_PREFIX = ''tella-videos-cache''"

definition TRANSCRIPT_CACHE_KEY :: string where
  "TRANSCRIPT_CACHE_KEY = ''tella-transcripts-cache''"

definition getCacheKey :: "string option \<Rightarrow> string" where
  "getCacheKey playlist = CACHE_KEY_PREFIX @ ''-'' @ or_default playlist ''all''"

definition getVideoCache :: "LocalStorage \<Rightarrow> string option \<Rightarrow> VideoCache option" where
  "getVideoCache ls playlist =
     (let key = getCacheKey playlist in
      case getItem ls key of
        Inl e \<Rightarrow> None
      | Inr None \<Rightarrow> None
      | Inr (Some cached) \<Rightarrow>
          (case parseVideoCache cached of Inl e \<Rightarrow> None | Inr c \<Rightarrow> Some c))"

definition setVideoCache ::
  "int \<Rightarrow> Video list \<Rightarrow> string option \<Rightarrow> LocalStorage \<Rightarrow> LocalStorage" where
  "setVideoCache now vs playlist ls =
     (let key = getCacheKey playlist;
          cache = \<lparr>videos = vs, fetchedAt = Num now,
                   playlistId = or_null playlist\<rparr>
      in case setItem ls key (VideoCacheText cache) of
           Inl e \<Rightarrow> ls
         | Inr ls' \<Rightarrow> ls')"

subsection \<open>Transcript cache\<close>

definition getTranscriptCache :: "LocalStorage \<Rightarrow> TranscriptCache option" where
  "getTranscriptCache ls =
     (case getItem ls TRANSCRIPT_CACHE_KEY of
        Inl e \<Rightarrow> None
      | Inr None \<Rightarrow> None
      | Inr (Some cached) \<Rightarrow>
          (case parseTranscriptCache cached of Inl e \<Rightarrow> None | Inr c \<Rightarrow> Some c))"

definition setTranscriptCache :: "TranscriptCache \<Rightarrow> LocalStorage \<Rightarrow> LocalStorage" where
  "setTranscriptCache cache ls =
     (case setItem ls TRANSCRIPT_CACHE_KEY (TranscriptCacheText cache) of
        Inl e \<Rightarrow> ls
      | Inr ls' \<Rightarrow> ls')"

text \<open>
  \<open>{...(existing?.transcripts || {}), ...newTranscripts}\<close>: the spread copies the first
  object and then writes every entry of the second over it, which is \<open>++\<close> on maps.
\<close>

definition addTranscriptsToCache ::
  "int \<Rightarrow> (string \<rightharpoonup> CachedTranscript) \<Rightarrow> LocalStorage \<Rightarrow> LocalStorage" where
  "addTranscriptsToCache now newTranscripts ls =
     (let existing = getTranscriptCache ls;
          updated = \<lparr>transcripts =
                       (case existing of None \<Rightarrow> Map.empty | Some c \<Rightarrow> transcripts c)
                         ++ newTranscripts,
                     transcripts_fetchedAt = Num now\<rparr>
      in setTranscriptCache updated ls)"

definition clearTranscriptCache :: "LocalStorage \<Rightarrow> LocalStorage" where
  "clearTranscriptCache ls =
     (case removeItem ls TRANSCRIPT_CACHE_KEY of Inl e \<Rightarrow> ls | Inr ls' \<Rightarrow> ls')"

section \<open>Remote catalog (\<open>api.ts\<close>)\<close>

text \<open>
  Modelled from the spec: the request and response types \<open>GetVideoResponse\<close>,
  \<open>ListVideosParams\<close> and \<open>ListVideosResponse\<close> are declared in \<open>types.ts\<close>, which is
  not among the sources; the fields are those the code reads (\<open>response.video\<close>,
  \<open>response.videos\<close>, \<open>response.pagination.nextCursor\<close>, \<open>response.pagination.hasMore\<close>)
  and sends (\<open>playlistId\<close>, \<open>cursor\<close>, \<open>limit\<close>), as in the spec's contract of the
  remote catalog client.
\<close>

record GetVideoResponse =
  response_video :: Video

record ListVideosParams =
  params_playlistId :: "string option"
  cursor :: "string option"
  limit :: "nat option"

record Pagination =
  nextCursor :: "string option"
  hasMore :: bool

record ListVideosResponse =
  response_videos :: "Video list"
  pagination :: Pagination

text \<open>
  What the calls \<open>getVideo\<close> and \<open>listVideos\<close> of \<open>api.ts\<close> resolve to or reject with,
  as the commands see it: a result or an error for each request.
\<close>

record RemoteCatalog =
  getVideo :: "string \<Rightarrow> error + GetVideoResponse"
  listVideos :: "ListVideosParams \<Rightarrow> error + ListVideosResponse"

text \<open>
  The loop \<open>while (hasMore) { response = await listVideos({playlistId, cursor, limit: 50});
  allVideos.push(...response.videos); cursor = nextCursor; hasMore = hasMore }\<close> of
  \<open>refreshAllVideos\<close> and of \<open>loadTranscripts\<close>.  A catalog that always answers
  \<open>hasMore\<close> keeps it running: the value is then \<open>None\<close>.  A rejected request leaves the
  loop with the error.
\<close>

partial_function (option) listAllVideos ::
  "RemoteCatalog \<Rightarrow> string option \<Rightarrow> string option \<Rightarrow> Video list \<Rightarrow> (error + Video list) option"
where
  "listAllVideos api playlist cur allVideos =
     (case listVideos api \<lparr>params_playlistId = playlist, cursor = cur, limit = Some 50\<rparr> of
        Inl e \<Rightarrow> Some (Inl e)
      | Inr response \<Rightarrow>
          if hasMore (pagination response)
          then listAllVideos api playlist (nextCursor (pagination response))
                 (allVideos @ response_videos response)
          else Some (Inr (allVideos @ response_videos response)))"

section \<open>Transcript search: batch fetch and load\<close>

definition FETCH_CONCURRENCY :: nat where
  "FETCH_CONCURRENCY = 5"

record VideoWithTranscript =
  video :: Video
  video_transcript :: "Transcript option"

text \<open>
  One task of a batch: the body of \<open>batch.map(async (video) => ...)\<close>.  A rejected
  \<open>getVideo\<close> is caught and gives the video without transcript; a transcript that is
  ready is written into \<open>newTranscripts\<close> under the video's id.
\<close>

definition fetchTask ::
  "RemoteCatalog \<Rightarrow> Video \<Rightarrow> (string \<rightharpoonup> CachedTranscript)
     \<Rightarrow> VideoWithTranscript \<times> (string \<rightharpoonup> CachedTranscript)" where
  "fetchTask api v newTs =
     (case getVideo api (id_v v) of
        Inl e \<Rightarrow> (\<lparr>video = v, video_transcript = None\<rparr>, newTs)
      | Inr response \<Rightarrow>
          (let t = transcript (response_video response) in
           (\<lparr>video = v, video_transcript = t\<rparr>,
            case t of
              None \<Rightarrow> newTs
            | Some tr \<Rightarrow>
                if status tr = Ready
                then newTs(id_v v \<mapsto>
                       \<lparr>cached_status = status tr, cached_text = transcript_text tr,
                        videoName = name v, cached_sentences = Some (sentences tr)\<rparr>)
                else newTs)))"

text \<open>
  One batch.  \<open>batch.map\<close> starts every task, \<open>Promise.allSettled\<close> waits until each has
  settled, whatever the others do, and returns the outcomes in the order of the batch.
  The tasks are in flight together and write to \<open>newTranscripts\<close> in the order in which
  their requests come back; that order is given by \<open>settle\<close>, which reorders the batch.
\<close>

definition fetchBatch ::
  "RemoteCatalog \<Rightarrow> (Video list \<Rightarrow> Video list) \<Rightarrow> Video list \<Rightarrow> (string \<rightharpoonup> CachedTranscript)
     \<Rightarrow> VideoWithTranscript list \<times> (string \<rightharpoonup> CachedTranscript)" where
  "fetchBatch api settle batch newTs =
     (map (\<lambda>v. fst (fetchTask api v newTs)) batch,
      foldl (\<lambda>written v. snd (fetchTask api v written)) newTs (settle batch))"

text \<open>
  The state of the loop of \<open>fetchTranscripts\<close>: the two results and the calls of
  \<open>onProgress\<close> made so far, each with its arguments \<open>(current, total)\<close>.
\<close>

record FetchState =
  results :: "VideoWithTranscript list"
  newTranscripts :: "string \<rightharpoonup> CachedTranscript"
  progress :: "(nat \<times> nat) list"

text \<open>
  \<open>for (let i = 0; i < videos.length; i += concurrency)\<close> with the batch
  \<open>videos.slice(i, i + concurrency)\<close>: the next batch starts when the one before has
  settled.  With \<open>concurrency = 0\<close> the index never moves and the loop does not end.
\<close>

partial_function (option) fetchTranscripts_loop ::
  "RemoteCatalog \<Rightarrow> (Video list \<Rightarrow> Video list) \<Rightarrow> Video list \<Rightarrow> nat \<Rightarrow> nat \<Rightarrow> FetchState
     \<Rightarrow> FetchState option"
where
  "fetchTranscripts_loop api settle vs concurrency i st =
     (if i < length vs
      then (let batch = take concurrency (drop i vs);
                (batchResults, newTs) = fetchBatch api settle batch (newTranscripts st)
            in fetchTranscripts_loop api settle vs concurrency (i + concurrency)
                 \<lparr>results = results st @ batchResults,
                  newTranscripts = newTs,
                  progress = progress st @ [(min (i + concurrency) (length vs), length vs)]\<rparr>)
      else Some st)"

definition fetchTranscripts ::
  "RemoteCatalog \<Rightarrow> (Video list \<Rightarrow> Video list) \<Rightarrow> Video list \<Rightarrow> nat \<Rightarrow> FetchState option" where
  "fetchTranscripts api settle vs concurrency =
     fetchTranscripts_loop api settle vs concurrency 0
       \<lparr>results = [], newTranscripts = Map.empty, progress = []\<rparr>"

subsection \<open>\<open>loadTranscripts\<close>\<close>

text \<open>The part of the command's state that \<open>loadTranscripts\<close> sets.\<close>

record SearchState =
  videosWithTranscripts :: "VideoWithTranscript list"
  isLoading :: bool
  cachedCount :: nat
  newCount :: nat
  search_error :: "error option"

definition cachedToTranscript :: "CachedTranscript \<Rightarrow> Transcript" where
  "cachedToTranscript cached =
     \<lparr>status = cached_status cached, language = ''en'', transcript_text = cached_text cached,
      sentences = (case cached_sentences cached of None \<Rightarrow> [] | Some ss \<Rightarrow> ss)\<rparr>"

text \<open>\<open>new Set(videos.map((v) => v.id))\<close>\<close>

definition videoIds :: "Video list \<Rightarrow> string set" where
  "videoIds vs = set (map id_v vs)"

text \<open>
  The loop over \<open>Object.entries(transcriptCache.transcripts)\<close> that copies into
  \<open>validTranscripts\<close> the entries whose key is in \<open>videoIds\<close>, and the assignment of the
  copy to \<open>transcriptCache.transcripts\<close>: both on the object just read, not on the store.
\<close>

definition validTranscripts ::
  "string set \<Rightarrow> (string \<rightharpoonup> CachedTranscript) \<Rightarrow> (string \<rightharpoonup> CachedTranscript)" where
  "validTranscripts ids ts = (\<lambda>videoId. if videoId \<in> ids then ts videoId else None)"

definition filterDeleted :: "string set \<Rightarrow> TranscriptCache option \<Rightarrow> TranscriptCache option" where
  "filterDeleted ids transcriptCache =
     (case transcriptCache of
        None \<Rightarrow> None
      | Some c \<Rightarrow> Some (c\<lparr>transcripts := validTranscripts ids (transcripts c)\<rparr>))"

text \<open>\<open>new Set(Object.keys(transcriptCache?.transcripts || {}))\<close>\<close>

definition cachedIds :: "TranscriptCache option \<Rightarrow> string set" where
  "cachedIds transcriptCache =
     dom (case transcriptCache of None \<Rightarrow> Map.empty | Some c \<Rightarrow> transcripts c)"

text \<open>\<open>videos.filter((v) => !cachedIds.has(v.id))\<close>\<close>

definition videosToFetch :: "Video list \<Rightarrow> string set \<Rightarrow> Video list" where
  "videosToFetch vs cached = filter (\<lambda>v. id_v v \<notin> cached) vs"

definition cachedResults :: "Video list \<Rightarrow> TranscriptCache option \<Rightarrow> VideoWithTranscript list" where
  "cachedResults vs transcriptCache =
     map (\<lambda>v. case (case transcriptCache of None \<Rightarrow> None | Some c \<Rightarrow> transcripts c (id_v v)) of
                 None \<Rightarrow> \<lparr>video = v, video_transcript = None\<rparr>
               | Some cached \<Rightarrow>
                   if cached_status cached = Ready
                   then \<lparr>video = v, video_transcript = Some (cachedToTranscript cached)\<rparr>
                   else \<lparr>video = v, video_transcript = None\<rparr>) vs"

text \<open>
  \<open>fetchedMap = new Map(fetchedResults.map((r) => [r.video.id, r]))\<close>, where a later
  pair replaces an earlier one with the same id, and
  \<open>results.map((r) => fetchedMap.get(r.video.id) || r)\<close>.
\<close>

definition mergedResults ::
  "VideoWithTranscript list \<Rightarrow> VideoWithTranscript list \<Rightarrow> VideoWithTranscript list" where
  "mergedResults rs fetchedResults =
     (let fetchedMap = map_of (rev (map (\<lambda>r. (id_v (video r), r)) fetchedResults))
      in map (\<lambda>r. case fetchedMap (id_v (video r)) of None \<Rightarrow> r | Some fetched \<Rightarrow> fetched) rs)"

text \<open>
  Where the video list comes from: the cached list of all videos when there is one and
  it is not empty, the paging loop otherwise.
\<close>

definition loadTranscripts_videos ::
  "RemoteCatalog \<Rightarrow> LocalStorage \<Rightarrow> (error + Video list) option" where
  "loadTranscripts_videos api ls =
     (case getVideoCache ls None of
        None \<Rightarrow> listAllVideos api None None []
      | Some videoCache \<Rightarrow>
          if videos videoCache \<noteq> [] then Some (Inr (videos videoCache))
          else listAllVideos api None None [])"

text \<open>
  \<open>loadTranscripts(forceRefresh)\<close> on the store and the command's state, with the
  order \<open>settle\<close> in which the requests of a batch come back.  The status lines and the
  progress bar are left out.  \<open>None\<close>: a loop inside does not end.
\<close>

definition loadTranscripts ::
  "RemoteCatalog \<Rightarrow> (Video list \<Rightarrow> Video list) \<Rightarrow> int \<Rightarrow> bool
     \<Rightarrow> LocalStorage \<times> SearchState \<Rightarrow> (LocalStorage \<times> SearchState) option" where
  "loadTranscripts api settle now forceRefresh lsst =
     (let (ls, st0) = lsst;
          st = st0\<lparr>isLoading := True, search_error := None\<rparr>
      in case loadTranscripts_videos api ls of
           None \<Rightarrow> None
         | Some (Inl e) \<Rightarrow> Some (ls, st\<lparr>search_error := Some e, isLoading := False\<rparr>)
         | Some (Inr vs) \<Rightarrow>
             if vs = [] then Some (ls, st\<lparr>isLoading := False\<rparr>)
             else
               (let ids = videoIds vs;
                    read = getTranscriptCache ls;
                    ls1 = (if forceRefresh then clearTranscriptCache ls else ls);
                    transcriptCache = filterDeleted ids (if forceRefresh then None else read);
                    cached = cachedIds transcriptCache;
                    toFetch = videosToFetch vs cached;
                    st1 = st\<lparr>cachedCount := card cached, newCount := length toFetch\<rparr>;
                    rs = cachedResults vs transcriptCache
                in if toFetch = []
                   then Some (ls1, st1\<lparr>videosWithTranscripts := rs, isLoading := False\<rparr>)
                   else
                     (case fetchTranscripts api settle toFetch FETCH_CONCURRENCY of
                        None \<Rightarrow> None
                      | Some fetched \<Rightarrow>
                          (let merged = mergedResults rs (results fetched);
                               ls2 = (if dom (newTranscripts fetched) \<noteq> {}
                                      then addTranscriptsToCache now (newTranscripts fetched) ls1
                                      else ls1)
                           in Some (ls2, st1\<lparr>videosWithTranscripts := merged,
                                            isLoading := False\<rparr>)))))"

section \<open>The fetch wrapper \<open>tellaFetch\<close> (\<open>api.ts\<close>)\<close>

text \<open>
  The \<open>Retry-After\<close> header as HTTP defines it: a number of seconds or a date.
  \<open>Number(res.headers.get("Retry-After") || 0)\<close> is \<open>0\<close> without the header, the
  seconds when it holds seconds, and \<open>NaN\<close> on a date.
\<close>

datatype retry_after = DelaySeconds nat | HttpDate string

text \<open>
  A response: \<open>body\<close> is what \<open>res.text()\<close> gives, \<open>json\<close> what \<open>res.json()\<close> gives, the
  parsed body, or nothing when the body is no JSON (an empty body, as with a 204), in
  which case \<open>res.json()\<close> rejects with a \<open>SyntaxError\<close>.
\<close>

record HttpResponse =
  http_status :: nat
  statusText :: string
  retryAfterHeader :: "retry_after option"
  body :: string
  json :: "string option"

definition ok :: "HttpResponse \<Rightarrow> bool" where
  "ok res = (200 \<le> http_status res \<and> http_status res \<le> 299)"

definition retryAfter :: "HttpResponse \<Rightarrow> js_number" where
  "retryAfter res =
     (case retryAfterHeader res of
        None \<Rightarrow> Num 0
      | Some (DelaySeconds n) \<Rightarrow> Num (int n)
      | Some (HttpDate d) \<Rightarrow> NaN)"

text \<open>\<open>retryAfter ? retryAfter * 1000 : 500 * Math.pow(2, attempt)\<close>; \<open>0\<close> and \<open>NaN\<close> are falsy.\<close>

definition waitMs :: "HttpResponse \<Rightarrow> nat \<Rightarrow> int" where
  "waitMs res attempt =
     (case retryAfter res of
        NaN \<Rightarrow> 500 * 2 ^ attempt
      | Num n \<Rightarrow> if n \<noteq> 0 then n * 1000 else 500 * 2 ^ attempt)"

text \<open>
  A run of \<open>tellaFetch\<close>: what it resolves to (the parsed body) or rejects with, the
  waits it made in order, and the number of requests it sent.
\<close>

record FetchRun =
  outcome :: "error + string"
  waits :: "int list"
  requests :: nat

text \<open>
  \<open>tellaFetch(path, init, attempt)\<close> for one path: \<open>net k\<close> is the outcome of the
  request sent by the call with \<open>attempt = k\<close>, a response or a rejection of \<open>fetch\<close>.
  \<open>getAuthHeaders\<close> throws before the request when the API key is empty.
\<close>

function tellaFetch :: "string \<Rightarrow> (nat \<Rightarrow> error + HttpResponse) \<Rightarrow> nat \<Rightarrow> FetchRun" where
  "tellaFetch tellaApiKey net attempt =
     (if tellaApiKey = [] then \<lparr>outcome = Inl ConfigError, waits = [], requests = 0\<rparr>
      else
        (case net attempt of
           Inl e \<Rightarrow> \<lparr>outcome = Inl e, waits = [], requests = 1\<rparr>
         | Inr res \<Rightarrow>
             if http_status res = 429 \<and> attempt < 3
             then (let run = tellaFetch tellaApiKey net (attempt + 1)
                   in run\<lparr>waits := waitMs res attempt # waits run,
                          requests := Suc (requests run)\<rparr>)
             else
               (let waited = (if http_status res = 429 then [waitMs res attempt] else [])
                in if \<not> ok res
                   then \<lparr>outcome = Inl (HttpError (http_status res) (statusText res) (body res)),
                         waits = waited, requests = 1\<rparr>
                   else \<lparr>outcome = (case json res of
                                       None \<Rightarrow> Inl SyntaxError
                                     | Some parsed \<Rightarrow> Inr parsed),
                         waits = waited, requests = 1\<rparr>)))"
  by pat_completeness auto
termination
  by (relation "measure (\<lambda>(k, net, attempt). 3 - attempt)") auto

declare tellaFetch.simps [simp del]

section \<open>Browse videos: load and fallback pagination (\<open>browse-videos.tsx\<close>)\<close>

text \<open>The state of the command that \<open>loadVideos\<close> and the page fetch set.\<close>

record BrowseState =
  videos_b :: "Video list"
  isLoading_b :: bool
  isSyncing :: bool
  lastSynced :: "js_number option"
  usePagination :: bool
  paginatedVideos :: "Video list"

text \<open>
  \<open>refreshAllVideos(playlistId)\<close>: the paging loop, then the cache write and
  \<open>setLastSynced\<close>.  It rejects when a page request does, before it writes anything.
\<close>

definition refreshAllVideos ::
  "RemoteCatalog \<Rightarrow> int \<Rightarrow> string option \<Rightarrow> LocalStorage \<times> BrowseState
     \<Rightarrow> ((error + Video list) \<times> LocalStorage \<times> BrowseState) option" where
  "refreshAllVideos api now playlist lsst =
     (let (ls, st) = lsst in
      case listAllVideos api playlist None [] of
        None \<Rightarrow> None
      | Some (Inl e) \<Rightarrow> Some (Inl e, ls, st)
      | Some (Inr allVideos) \<Rightarrow>
          Some (Inr allVideos, setVideoCache now allVideos playlist ls,
                st\<lparr>lastSynced := Some (Num now)\<rparr>))"

text \<open>The two background refreshes of \<open>loadVideos\<close>, for an expired and for a stale cache.\<close>

definition backgroundRefresh ::
  "RemoteCatalog \<Rightarrow> int \<Rightarrow> string option \<Rightarrow> LocalStorage \<times> BrowseState
     \<Rightarrow> (LocalStorage \<times> BrowseState) option" where
  "backgroundRefresh api now playlist lsst =
     (let (ls, st) = lsst in
      case refreshAllVideos api now playlist (ls, st\<lparr>isSyncing := True\<rparr>) of
        None \<Rightarrow> None
      | Some (Inl e, ls', st') \<Rightarrow> Some (ls', st'\<lparr>isSyncing := False\<rparr>)
      | Some (Inr refreshedVideos, ls', st') \<Rightarrow>
          Some (ls', st'\<lparr>videos_b := refreshedVideos, isSyncing := False\<rparr>))"

definition loadVideos ::
  "RemoteCatalog \<Rightarrow> preferences \<Rightarrow> int \<Rightarrow> string option \<Rightarrow> LocalStorage \<times> BrowseState
     \<Rightarrow> (LocalStorage \<times> BrowseState) option" where
  "loadVideos api prefs now playlist lsst =
     (let (ls, st) = lsst in
      case getVideoCache ls playlist of
        Some cache \<Rightarrow>
          (let st1 = st\<lparr>videos_b := videos cache, lastSynced := Some (fetchedAt cache),
                        isLoading_b := False\<rparr>
           in if isCacheExpired prefs now cache then backgroundRefresh api now playlist (ls, st1)
              else if isCacheStale prefs now cache then backgroundRefresh api now playlist (ls, st1)
              else Some (ls, st1))
      | None \<Rightarrow>
          (case refreshAllVideos api now playlist (ls, st\<lparr>isLoading_b := True\<rparr>) of
             None \<Rightarrow> None
           | Some (Inl e, ls', st') \<Rightarrow> Some (ls', st'\<lparr>usePagination := True, isLoading_b := False\<rparr>)
           | Some (Inr allVideos, ls', st') \<Rightarrow>
               Some (ls', st'\<lparr>videos_b := allVideos, isLoading_b := False\<rparr>)))"

text \<open>
  The function given to \<open>useCachedPromise\<close> for the fallback mode: one page request
  with the cursor of \<open>options\<close>, the update of \<open>paginatedVideos\<close>, and the page returned to
  the hook.  \<open>!options.cursor\<close> holds without a cursor and with an empty one.
\<close>

record PageResult =
  data :: "Video list"
  page_hasMore :: bool
  page_cursor :: "string option"

definition accumulate :: "string option \<Rightarrow> Video list \<Rightarrow> Video list \<Rightarrow> Video list" where
  "accumulate cur newVideos prev =
     (if or_null cur = None then newVideos
      else (let existingIds = set (map id_v prev);
                uniqueNewVideos = filter (\<lambda>v. id_v v \<notin> existingIds) newVideos
            in prev @ uniqueNewVideos))"

definition paginatedFetch ::
  "RemoteCatalog \<Rightarrow> string option \<Rightarrow> string option \<Rightarrow> BrowseState
     \<Rightarrow> error + (PageResult \<times> BrowseState)" where
  "paginatedFetch api playlist cur st =
     (case listVideos api \<lparr>params_playlistId = playlist, cursor = cur, limit = Some 30\<rparr> of
        Inl e \<Rightarrow> Inl e
      | Inr response \<Rightarrow>
          (let newVideos = response_videos response
           in Inr (\<lparr>data = newVideos, page_hasMore = hasMore (pagination response),
                     page_cursor = nextCursor (pagination response)\<rparr>,
                   st\<lparr>paginatedVideos := accumulate cur newVideos (paginatedVideos st)\<rparr>)))"


section \<open>Derived notions and example data\<close>

text \<open>
  Modelled from the spec: the declaration of the \<open>cacheDuration\<close> preference (the
  extension manifest) is not among the sources.  It is an enumerated setting with the
  values \<open>"5"\<close>, \<open>"30"\<close>, \<open>"60"\<close> and \<open>"0"\<close> (5 minutes, 30 minutes, one hour, manual
  only): the durations that can be configured.
\<close>

definition cacheDurationSettings :: "string set" where
  "cacheDurationSettings = {''5'', ''30'', ''60'', ''0''}"

text \<open>What one task of a batch returns as the transcript of its video.\<close>

definition taskTranscript :: "RemoteCatalog \<Rightarrow> Video \<Rightarrow> Transcript option" where
  "taskTranscript api v =
     (case getVideo api (id_v v) of
        Inl e \<Rightarrow> None
      | Inr response \<Rightarrow> transcript (response_video response))"


text \<open>
  The batches of the spec: the worklist cut into consecutive runs of \<open>C\<close> items, the
  last one shorter when the length is no multiple of \<open>C\<close>.
\<close>

function batches :: "nat \<Rightarrow> 'a list \<Rightarrow> 'a list list" where
  "batches C xs = (if C = 0 \<or> xs = [] then [] else take C xs # batches C (drop C xs))"
  by pat_completeness auto
termination
  by (relation "measure (\<lambda>(C, xs). length xs)") auto

declare batches.simps [simp del]

text \<open>
  The progress calls of the batches from index \<open>i\<close> on, for a worklist of \<open>n\<close> videos
  and the batch size \<open>C\<close>.
\<close>

definition ticks :: "nat \<Rightarrow> nat \<Rightarrow> nat \<Rightarrow> (nat \<times> nat) list" where
  "ticks C i n = map (\<lambda>j. (min (i + (j + 1) * C) n, n)) [0..<(n - i + C - 1) div C]"

text \<open>
  The ids under the transcript cache key as stored, whether or not the store lets them
  be read.
\<close>

definition persistedIds :: "LocalStorage \<Rightarrow> string set" where
  "persistedIds ls =
     (case items ls TRANSCRIPT_CACHE_KEY of
        Some (TranscriptCacheText c) \<Rightarrow> dom (transcripts c)
      | _ \<Rightarrow> {})"

text \<open>Concrete values for the examples below.\<close>

definition mkVideo :: "string \<Rightarrow> Video" where
  "mkVideo k = \<lparr>id_v = k, name = k, description = [], updatedAt = [], views = 0,
                transcript = None\<rparr>"

definition readyTranscript :: Transcript where
  "readyTranscript = \<lparr>status = Ready, language = ''en'', transcript_text = ''hello'',
                      sentences = []\<rparr>"

definition readyEntry :: "string \<Rightarrow> CachedTranscript" where
  "readyEntry k = \<lparr>cached_status = Ready, cached_text = ''hello'', videoName = k,
                   cached_sentences = Some []\<rparr>"

text \<open>
  A catalog in which the request for \<open>v3\<close> is rejected, every other video has a ready
  transcript, and every list request is rejected.
\<close>

definition api3 :: RemoteCatalog where
  "api3 = \<lparr>getVideo = (\<lambda>k. if k = ''v3'' then Inl NetworkError
                            else Inr \<lparr>response_video = (mkVideo k)\<lparr>transcript := Some readyTranscript\<rparr>\<rparr>),
           listVideos = (\<lambda>p. Inl NetworkError)\<rparr>"

definition emptyStore :: LocalStorage where
  "emptyStore = \<lparr>items = Map.empty, readFails = False, writeFails = False\<rparr>"

text \<open>A store that holds the cache of all videos, written at instant 1000.\<close>

definition cacheAt :: "int \<Rightarrow> VideoCache" where
  "cacheAt t = \<lparr>videos = [], fetchedAt = Num t, playlistId = None\<rparr>"

definition allVideosStore :: LocalStorage where
  "allVideosStore =
     \<lparr>items = [getCacheKey None \<mapsto> VideoCacheText (cacheAt 1000)],
      readFails = False, writeFails = False\<rparr>"

text \<open>
  A store whose transcript cache holds two entries, written at instant 0; the same store
  when it refuses every write; and when it refuses every read.
\<close>

definition transcriptStore :: LocalStorage where
  "transcriptStore =
     \<lparr>items = [TRANSCRIPT_CACHE_KEY \<mapsto>
                 TranscriptCacheText
                   \<lparr>transcripts = [''v1'' \<mapsto> readyEntry ''old'', ''v2'' \<mapsto> readyEntry ''two''],
                    transcripts_fetchedAt = Num 0\<rparr>],
      readFails = False, writeFails = False\<rparr>"

definition readOnlyStore :: LocalStorage where
  "readOnlyStore = transcriptStore\<lparr>writeFails := True\<rparr>"

definition unreadableStore :: LocalStorage where
  "unreadableStore = transcriptStore\<lparr>readFails := True\<rparr>"


text \<open>
  A store with one video, \<open>v1\<close>, in the cache of all videos, and a transcript cache
  that still holds an entry for \<open>v2\<close>, a video that is no longer in the collection.
\<close>

definition staleStore :: LocalStorage where
  "staleStore =
     \<lparr>items = [getCacheKey None \<mapsto>
                 VideoCacheText \<lparr>videos = [mkVideo ''v1''], fetchedAt = Num 0, playlistId = None\<rparr>,
               TRANSCRIPT_CACHE_KEY \<mapsto>
                 TranscriptCacheText
                   \<lparr>transcripts = [''v2'' \<mapsto> readyEntry ''two''], transcripts_fetchedAt = Num 0\<rparr>],
      readFails = False, writeFails = False\<rparr>"

text \<open>The state of the search command before its first load.\<close>

definition initialSearch :: SearchState where
  "initialSearch = \<lparr>videosWithTranscripts = [], isLoading = True, cachedCount = 0, newCount = 0,
                     search_error = None\<rparr>"

text \<open>One transcript cache, its two entries written in either order.\<close>

definition twoCached :: "TranscriptCache option" where
  "twoCached = Some \<lparr>transcripts = [''v2'' \<mapsto> readyEntry ''two'', ''v9'' \<mapsto> readyEntry ''nine''],
                     transcripts_fetchedAt = Num 0\<rparr>"

definition twoCachedSwapped :: "TranscriptCache option" where
  "twoCachedSwapped = Some \<lparr>transcripts = [''v9'' \<mapsto> readyEntry ''nine'', ''v2'' \<mapsto> readyEntry ''two''],
                     transcripts_fetchedAt = Num 0\<rparr>"


text \<open>
  Responses of the remote service: a 429 without \<open>Retry-After\<close>, a 200; a service that
  answers 429 three times and then 200; one that always answers 429, the second time
  with \<open>Retry-After: 7\<close>.
\<close>

definition response429 :: HttpResponse where
  "response429 = \<lparr>http_status = 429, statusText = ''Too Many Requests'',
                   retryAfterHeader = None, body = ''slow down'', json = None\<rparr>"

definition response200 :: HttpResponse where
  "response200 = \<lparr>http_status = 200, statusText = ''OK'', retryAfterHeader = None,
                   body = ''{}'', json = Some ''{}''\<rparr>"

text \<open>A 204 with an empty body, which is no JSON.\<close>

definition response204 :: HttpResponse where
  "response204 = \<lparr>http_status = 204, statusText = ''No Content'', retryAfterHeader = None,
                   body = [], json = None\<rparr>"

definition thrice429 :: "nat \<Rightarrow> error + HttpResponse" where
  "thrice429 k = (if k < 3 then Inr response429 else Inr response200)"

definition busy :: "nat \<Rightarrow> HttpResponse" where
  "busy k = response429\<lparr>retryAfterHeader := (if k = 1 then Some (DelaySeconds 7) else None)\<rparr>"

definition always429 :: "nat \<Rightarrow> error + HttpResponse" where
  "always429 k = Inr (busy k)"


text \<open>The state of the browse command before its first load.\<close>

definition initialBrowse :: BrowseState where
  "initialBrowse = \<lparr>videos_b = [], isLoading_b = True, isSyncing = False, lastSynced = None,
                     usePagination = False, paginatedVideos = []\<rparr>"

text \<open>
  A catalog that rejects the requests of the full fetch (those with \<open>limit = 50\<close>) and
  serves the page requests: \<open>v1\<close>, \<open>v2\<close> first, then \<open>v2\<close>, \<open>v3\<close>.
\<close>

definition pagedApi :: RemoteCatalog where
  "pagedApi =
     \<lparr>getVideo = (\<lambda>k. Inl NetworkError),
      listVideos = (\<lambda>p.
        if limit p = Some 50 then Inl NetworkError
        else if cursor p = None
        then Inr \<lparr>response_videos = [mkVideo ''v1'', mkVideo ''v2''],
                  pagination = \<lparr>nextCursor = Some ''c1'', hasMore = True\<rparr>\<rparr>
        else Inr \<lparr>response_videos = [mkVideo ''v2'', mkVideo ''v3''],
                  pagination = \<lparr>nextCursor = None, hasMore = False\<rparr>\<rparr>)\<rparr>"

text \<open>The state once in fallback mode, and after the first page.\<close>

definition fallbackState :: BrowseState where
  "fallbackState = initialBrowse\<lparr>isLoading_b := False, usePagination := True\<rparr>"

definition onePage :: BrowseState where
  "onePage = fallbackState\<lparr>paginatedVideos := [mkVideo ''v1'', mkVideo ''v2'']\<rparr>"



text \<open>
  The example store after a load that cached \<open>v1\<close>, and after the next refresh of the
  video list, in which a video with the id \<open>v2\<close> exists again.
\<close>

definition loadedStore :: LocalStorage where
  "loadedStore = addTranscriptsToCache 1000 [''v1'' \<mapsto> readyEntry ''v1''] staleStore"

definition recreatedStore :: LocalStorage where
  "recreatedStore = setVideoCache 2000 [mkVideo ''v1'', mkVideo ''v2''] None loadedStore"

text \<open>A catalog in which every video has a ready transcript with other words.\<close>

definition otherTranscript :: Transcript where
  "otherTranscript = \<lparr>status = Ready, language = ''en'', transcript_text = ''other words'',
                      sentences = []\<rparr>"

definition apiOther :: RemoteCatalog where
  "apiOther = \<lparr>getVideo = (\<lambda>k. Inr \<lparr>response_video = (mkVideo k)\<lparr>transcript := Some otherTranscript\<rparr>\<rparr>),
               listVideos = (\<lambda>p. Inl NetworkError)\<rparr>"

section \<open>Properties of the freshness policy\<close>

lemma parseInt_0: "parseInt ''0'' = Num 0"
  by (simp add: parseInt_def is_space_def is_digit_def digit_value_def)

lemma parseInt_30: "parseInt ''30'' = Num 30"
  by (simp add: parseInt_def is_space_def is_digit_def digit_value_def)

lemma parseInt_5: "parseInt ''5'' = Num 5"
  by (simp add: parseInt_def is_space_def is_digit_def digit_value_def)

lemma parseInt_60: "parseInt ''60'' = Num 60"
  by (simp add: parseInt_def is_space_def is_digit_def digit_value_def)

lemma getCacheDuration_0: "getCacheDuration (Preferences (Some ''0'')) = Num 0"
  by (simp add: getCacheDuration_def or_default_def parseInt_0)

lemma getCacheDuration_30: "getCacheDuration (Preferences (Some ''30'')) = Num 30"
  by (simp add: getCacheDuration_def or_default_def parseInt_30)

lemma getCacheDuration_5: "getCacheDuration (Preferences (Some ''5'')) = Num 5"
  by (simp add: getCacheDuration_def or_default_def parseInt_5)

lemma getCacheDuration_60: "getCacheDuration (Preferences (Some ''60'')) = Num 60"
  by (simp add: getCacheDuration_def or_default_def parseInt_60)

text \<open>The duration of every setting that can be configured.\<close>

lemma getCacheDuration_settings:
  assumes "setting \<in> cacheDurationSettings"
  shows "getCacheDuration (Preferences (Some setting)) \<in> {Num 5, Num 30, Num 60, Num 0}"
  using assms getCacheDuration_5 getCacheDuration_30 getCacheDuration_60 getCacheDuration_0
  unfolding cacheDurationSettings_def by auto

lemma getCacheDuration_absent: "getCacheDuration (Preferences None) = Num 30"
  by (simp add: getCacheDuration_def or_default_def parseInt_30)

lemma getCacheDuration_empty: "getCacheDuration (Preferences (Some [])) = Num 30"
  by (simp add: getCacheDuration_def or_default_def parseInt_30)

lemma getCacheDuration_throw: "getCacheDuration PreferencesThrow = Num 30"
  by (simp add: getCacheDuration_def)

text \<open>The three classifications for a duration other than 0, as conditions on the age.\<close>

lemma freshness_unfold:
  assumes "getCacheDuration prefs = Num D" "D \<noteq> 0" "fetchedAt cache = Num t"
  shows "isCacheFresh prefs now cache \<longleftrightarrow> now - t < 300000"
    and "isCacheStale prefs now cache \<longleftrightarrow> 300000 \<le> now - t \<and> now - t < D * 60000"
    and "isCacheExpired prefs now cache \<longleftrightarrow> D * 60000 \<le> now - t"
  using assms
  by (simp_all add: isCacheFresh_def isCacheStale_def isCacheExpired_def
      CACHE_FRESH_THRESHOLD_MS_def Let_def mult.commute)

text \<open>
  C3, as the code has it.  With the duration 0 (manual refresh only) every entry, at
  every age, is neither fresh nor stale nor expired: \<open>isCacheFresh\<close> has the same guard
  as the other two.
\<close>

theorem manual_mode_all_false:
  assumes "getCacheDuration prefs = Num 0"
  shows "\<not> isCacheFresh prefs now cache \<and> \<not> isCacheStale prefs now cache
         \<and> \<not> isCacheExpired prefs now cache"
  using assms by (simp add: isCacheFresh_def isCacheStale_def isCacheExpired_def)

theorem manual_mode_all_false_witness:
  "getCacheDuration (Preferences (Some ''0'')) = Num 0
   \<and> \<not> isCacheFresh (Preferences (Some ''0'')) 1000 (cacheAt 1000)
   \<and> \<not> isCacheStale (Preferences (Some ''0'')) 1000 (cacheAt 1000)
   \<and> \<not> isCacheExpired (Preferences (Some ''0'')) 1000 (cacheAt 1000)"
  using manual_mode_all_false [OF getCacheDuration_0] getCacheDuration_0 by simp

text \<open>
  C3 as stated fails: with the duration 0 an entry of age 0, younger than five minutes,
  is not fresh.
\<close>

theorem manual_mode_fresh_counterexample:
  "getCacheDuration (Preferences (Some ''0'')) = Num 0
   \<and> js_less (getCacheAge 1000 (cacheAt 1000)) (Num CACHE_FRESH_THRESHOLD_MS)
   \<and> \<not> isCacheFresh (Preferences (Some ''0'')) 1000 (cacheAt 1000)"
  by (simp add: getCacheDuration_0 getCacheAge_def CACHE_FRESH_THRESHOLD_MS_def
      isCacheFresh_def cacheAt_def)

text \<open>
  C4.  For every duration \<open>D > 0\<close> that can be configured (the settings 5, 30 and 60)
  and every entry of age \<open>now - t\<close>, negative when the entry is dated in the future: the
  entry is fresh iff its age is under five minutes, stale iff its age is at least five
  minutes and under \<open>D\<close> minutes, expired iff its age is at least \<open>D\<close> minutes; at every
  age one of the three holds, and no two hold together.
\<close>

theorem freshness_classification:
  assumes "setting \<in> cacheDurationSettings"
    and "getCacheDuration (Preferences (Some setting)) = Num D" and "0 < D"
    and "fetchedAt cache = Num t"
  shows "(isCacheFresh (Preferences (Some setting)) now cache \<longleftrightarrow> now - t < 5 * 60 * 1000)
       \<and> (isCacheStale (Preferences (Some setting)) now cache
             \<longleftrightarrow> 5 * 60 * 1000 \<le> now - t \<and> now - t < D * 60 * 1000)
       \<and> (isCacheExpired (Preferences (Some setting)) now cache \<longleftrightarrow> D * 60 * 1000 \<le> now - t)
       \<and> (isCacheFresh (Preferences (Some setting)) now cache
            \<or> isCacheStale (Preferences (Some setting)) now cache
            \<or> isCacheExpired (Preferences (Some setting)) now cache)
       \<and> \<not> (isCacheFresh (Preferences (Some setting)) now cache
              \<and> isCacheStale (Preferences (Some setting)) now cache)
       \<and> \<not> (isCacheFresh (Preferences (Some setting)) now cache
              \<and> isCacheExpired (Preferences (Some setting)) now cache)
       \<and> \<not> (isCacheStale (Preferences (Some setting)) now cache
              \<and> isCacheExpired (Preferences (Some setting)) now cache)"
proof -
  from assms(3) have nz: "D \<noteq> 0" by simp
  from getCacheDuration_settings [OF assms(1)] assms(2) assms(3) have five: "5 \<le> D" by auto
  note u = freshness_unfold [OF assms(2) nz assms(4), of now]
  show ?thesis unfolding u using five by auto
qed

text \<open>
  At the setting 30 an entry dated one second in the future is fresh, and only fresh.
  At the setting 5, where the two bounds meet, an entry of age five minutes is expired,
  and only expired.
\<close>

theorem freshness_classification_witness:
  "''30'' \<in> cacheDurationSettings \<and> ''5'' \<in> cacheDurationSettings
   \<and> getCacheDuration (Preferences (Some ''30'')) = Num 30 \<and> (0::int) < 30
   \<and> getCacheDuration (Preferences (Some ''5'')) = Num 5 \<and> (0::int) < 5
   \<and> fetchedAt (cacheAt 1000) = Num 1000
   \<and> isCacheFresh (Preferences (Some ''30'')) 0 (cacheAt 1000)
   \<and> \<not> isCacheStale (Preferences (Some ''30'')) 0 (cacheAt 1000)
   \<and> \<not> isCacheExpired (Preferences (Some ''30'')) 0 (cacheAt 1000)
   \<and> \<not> isCacheFresh (Preferences (Some ''5'')) 301000 (cacheAt 1000)
   \<and> \<not> isCacheStale (Preferences (Some ''5'')) 301000 (cacheAt 1000)
   \<and> isCacheExpired (Preferences (Some ''5'')) 301000 (cacheAt 1000)"
proof -
  have s: "''30'' \<in> cacheDurationSettings" "''5'' \<in> cacheDurationSettings"
    by (simp_all add: cacheDurationSettings_def)
  have t: "fetchedAt (cacheAt 1000) = Num 1000" by (simp add: cacheAt_def)
  have p: "(0::int) < 30" "(0::int) < 5" by simp_all
  from freshness_classification [OF s(1) getCacheDuration_30 p(1) t, of 0]
    freshness_classification [OF s(2) getCacheDuration_5 p(2) t, of 301000]
    getCacheDuration_30 getCacheDuration_5 t s
  show ?thesis by simp
qed

text \<open>
  C10.  Without a \<open>cacheDuration\<close> preference, or when the lookup of the preferences
  throws, the duration is 30 minutes and not 0: an entry is fresh under five minutes of
  age, stale from five minutes and expired from thirty.
\<close>

theorem default_duration:
  assumes "prefs = PreferencesThrow \<or> prefs = Preferences None"
    and "fetchedAt cache = Num t"
  shows "getCacheDuration prefs = Num 30 \<and> getCacheDuration prefs \<noteq> Num 0
       \<and> (isCacheFresh prefs now cache \<longleftrightarrow> now - t < 5 * 60 * 1000)
       \<and> (isCacheStale prefs now cache \<longleftrightarrow> 5 * 60 * 1000 \<le> now - t \<and> now - t < 30 * 60 * 1000)
       \<and> (isCacheExpired prefs now cache \<longleftrightarrow> 30 * 60 * 1000 \<le> now - t)"
proof -
  from assms(1) have d: "getCacheDuration prefs = Num 30"
    by (auto simp add: getCacheDuration_throw getCacheDuration_absent)
  have nz: "(30::int) \<noteq> 0" by simp
  note u = freshness_unfold [OF d nz assms(2), of now]
  show ?thesis unfolding u using d by simp
qed

text \<open>
  With no preference set, an entry of age 10 minutes is stale and one of age 30 minutes
  is expired; in the manual mode neither would be.
\<close>

theorem default_duration_witness:
  "(Preferences None = PreferencesThrow \<or> Preferences None = Preferences None)
   \<and> fetchedAt (cacheAt 0) = Num 0
   \<and> getCacheDuration (Preferences None) = Num 30
   \<and> isCacheStale (Preferences None) 600000 (cacheAt 0)
   \<and> isCacheExpired (Preferences None) 1800000 (cacheAt 0)
   \<and> isCacheExpired PreferencesThrow 1800000 (cacheAt 0)"
proof -
  have t: "fetchedAt (cacheAt 0) = Num 0" by (simp add: cacheAt_def)
  have a: "Preferences None = PreferencesThrow \<or> Preferences None = Preferences None" by simp
  have b: "PreferencesThrow = PreferencesThrow \<or> PreferencesThrow = Preferences None" by simp
  from default_duration [OF a t, of 600000] default_duration [OF a t, of 1800000]
    default_duration [OF b t, of 1800000] t
  show ?thesis by simp
qed

section \<open>Properties of the video cache and the transcript cache\<close>

lemma getCacheKey_eq_iff:
  "getCacheKey p = getCacheKey q \<longleftrightarrow> or_default p ''all'' = or_default q ''all''"
  by (simp add: getCacheKey_def)

lemma getVideoCache_allVideosStore: "getVideoCache allVideosStore None = Some (cacheAt 1000)"
  by (simp add: allVideosStore_def getVideoCache_def getItem_def parseVideoCache_def)

text \<open>
  C9, as the code has it.  The key of a partition is its playlist id, with \<open>all\<close> for no
  id and for an empty one.  Two partitions that differ in this sense have different
  keys, and writing the cache of one leaves the stored entry of the other as it was,
  its videos and its \<open>fetchedAt\<close>.
\<close>

theorem partition_write_frame:
  assumes "or_default p1 ''all'' \<noteq> or_default p2 ''all''"
  shows "getCacheKey p1 \<noteq> getCacheKey p2
       \<and> items (setVideoCache now vs p1 ls) (getCacheKey p2) = items ls (getCacheKey p2)
       \<and> getVideoCache (setVideoCache now vs p1 ls) p2 = getVideoCache ls p2"
  using assms
  by (simp add: setVideoCache_def getVideoCache_def setItem_def getItem_def getCacheKey_def
      Let_def)

theorem partition_write_frame_witness:
  "or_default (Some ''p1'') ''all'' \<noteq> or_default None ''all''
   \<and> getVideoCache (setVideoCache 2000 [] (Some ''p1'') allVideosStore) None
       = Some (cacheAt 1000)"
proof -
  have h: "or_default (Some ''p1'') ''all'' \<noteq> or_default None ''all''"
    by (simp add: or_default_def)
  from partition_write_frame [OF h, of 2000 "[]" allVideosStore] h getVideoCache_allVideosStore
  show ?thesis by simp
qed

text \<open>
  C9 as stated fails for the two distinct partitions ``playlist \<open>all\<close>'' and ``all
  videos'': they share one key, and a write for the first replaces the entry of the
  second, its \<open>fetchedAt\<close> included.
\<close>

theorem partition_collision_counterexample:
  "Some ''all'' \<noteq> (None :: string option)
   \<and> getVideoCache allVideosStore None = Some (cacheAt 1000)
   \<and> getVideoCache (setVideoCache 2000 [] (Some ''all'') allVideosStore) None
       = Some \<lparr>videos = [], fetchedAt = Num 2000, playlistId = Some ''all''\<rparr>"
  by (simp add: allVideosStore_def getVideoCache_def setVideoCache_def getItem_def setItem_def
      parseVideoCache_def getCacheKey_def or_default_def or_null_def cacheAt_def)

text \<open>What the transcript cache holds after a merge into a store that reads and writes.\<close>

lemma getTranscriptCache_add:
  assumes "\<not> readFails ls" and "\<not> writeFails ls"
  shows "getTranscriptCache (addTranscriptsToCache now new ls)
         = Some \<lparr>transcripts =
                   (case getTranscriptCache ls of None \<Rightarrow> Map.empty | Some c \<Rightarrow> transcripts c)
                     ++ new,
                 transcripts_fetchedAt = Num now\<rparr>"
  using assms
  by (simp add: addTranscriptsToCache_def setTranscriptCache_def getTranscriptCache_def
      setItem_def getItem_def parseTranscriptCache_def Let_def)

text \<open>A merge into a store that refuses the write changes nothing.\<close>

lemma addTranscriptsToCache_refused:
  assumes "writeFails ls"
  shows "addTranscriptsToCache now new ls = ls"
  using assms by (simp add: addTranscriptsToCache_def setTranscriptCache_def setItem_def Let_def)

text \<open>
  C7, as the code has it.  On a store that accepts the read and the write, the merge
  leaves in the cache the union of the map it read and the new entries: every key read
  is still there, a new entry replaces the old one under its key, every other entry is
  unchanged, and \<open>fetchedAt\<close> is the instant of the merge.  On a store that refuses the
  write, the merge leaves the store as it was.
\<close>

theorem merge_right_biased_union:
  "(\<not> readFails ls \<and> \<not> writeFails ls \<longrightarrow>
      (let existing = (case getTranscriptCache ls of None \<Rightarrow> Map.empty | Some c \<Rightarrow> transcripts c);
           after = getTranscriptCache (addTranscriptsToCache now new ls)
       in after = Some \<lparr>transcripts = existing ++ new, transcripts_fetchedAt = Num now\<rparr>
        \<and> dom existing \<subseteq> dom (existing ++ new)
        \<and> (\<forall>k v. new k = Some v \<longrightarrow> (existing ++ new) k = Some v)
        \<and> (\<forall>k. new k = None \<longrightarrow> (existing ++ new) k = existing k)))
   \<and> (writeFails ls \<longrightarrow> addTranscriptsToCache now new ls = ls)"
proof (intro conjI impI)
  assume h: "\<not> readFails ls \<and> \<not> writeFails ls"
  then have r: "\<not> readFails ls" and w: "\<not> writeFails ls" by simp_all
  show "let existing = (case getTranscriptCache ls of None \<Rightarrow> Map.empty | Some c \<Rightarrow> transcripts c);
            after = getTranscriptCache (addTranscriptsToCache now new ls)
        in after = Some \<lparr>transcripts = existing ++ new, transcripts_fetchedAt = Num now\<rparr>
         \<and> dom existing \<subseteq> dom (existing ++ new)
         \<and> (\<forall>k v. new k = Some v \<longrightarrow> (existing ++ new) k = Some v)
         \<and> (\<forall>k. new k = None \<longrightarrow> (existing ++ new) k = existing k)"
    unfolding Let_def getTranscriptCache_add [OF r w]
    by (auto simp add: map_add_def split: option.splits)
next
  assume "writeFails ls"
  then show "addTranscriptsToCache now new ls = ls" by (rule addTranscriptsToCache_refused)
qed

lemma getTranscriptCache_transcriptStore:
  "getTranscriptCache transcriptStore
   = Some \<lparr>transcripts = [''v1'' \<mapsto> readyEntry ''old'', ''v2'' \<mapsto> readyEntry ''two''],
           transcripts_fetchedAt = Num 0\<rparr>"
  by (simp add: transcriptStore_def getTranscriptCache_def getItem_def parseTranscriptCache_def)

text \<open>
  Merging a new entry for \<open>v1\<close> into a cache that holds \<open>v1\<close> and \<open>v2\<close>: the new entry
  replaces the old one, \<open>v2\<close> stays, and \<open>fetchedAt\<close> moves from 0 to 5000.  The same merge
  into the store that refuses writes leaves it as it was.
\<close>

theorem merge_right_biased_union_witness:
  "\<not> readFails transcriptStore \<and> \<not> writeFails transcriptStore
   \<and> map_option transcripts_fetchedAt
       (getTranscriptCache (addTranscriptsToCache 5000 [''v1'' \<mapsto> readyEntry ''new''] transcriptStore))
     = Some (Num 5000)
   \<and> cachedIds (getTranscriptCache
        (addTranscriptsToCache 5000 [''v1'' \<mapsto> readyEntry ''new''] transcriptStore))
     = {''v1'', ''v2''}
   \<and> map_option (\<lambda>c. (transcripts c ''v1'', transcripts c ''v2''))
       (getTranscriptCache (addTranscriptsToCache 5000 [''v1'' \<mapsto> readyEntry ''new''] transcriptStore))
     = Some (Some (readyEntry ''new''), Some (readyEntry ''two''))
   \<and> writeFails readOnlyStore
   \<and> addTranscriptsToCache 5000 [''v1'' \<mapsto> readyEntry ''new''] readOnlyStore = readOnlyStore"
proof -
  have r: "\<not> readFails transcriptStore \<and> \<not> writeFails transcriptStore"
    by (simp add: transcriptStore_def)
  from merge_right_biased_union [of transcriptStore 5000 "[''v1'' \<mapsto> readyEntry ''new'']"] r
  have "getTranscriptCache (addTranscriptsToCache 5000 [''v1'' \<mapsto> readyEntry ''new''] transcriptStore)
        = Some \<lparr>transcripts = [''v1'' \<mapsto> readyEntry ''old'', ''v2'' \<mapsto> readyEntry ''two'']
                   ++ [''v1'' \<mapsto> readyEntry ''new''],
                transcripts_fetchedAt = Num 5000\<rparr>"
    by (simp add: Let_def getTranscriptCache_transcriptStore)
  then have 1: "map_option transcripts_fetchedAt
       (getTranscriptCache (addTranscriptsToCache 5000 [''v1'' \<mapsto> readyEntry ''new''] transcriptStore))
     = Some (Num 5000)
   \<and> cachedIds (getTranscriptCache
        (addTranscriptsToCache 5000 [''v1'' \<mapsto> readyEntry ''new''] transcriptStore))
     = {''v1'', ''v2''}
   \<and> map_option (\<lambda>c. (transcripts c ''v1'', transcripts c ''v2''))
       (getTranscriptCache (addTranscriptsToCache 5000 [''v1'' \<mapsto> readyEntry ''new''] transcriptStore))
     = Some (Some (readyEntry ''new''), Some (readyEntry ''two''))"
    by (auto simp add: cachedIds_def)
  have w: "writeFails readOnlyStore" by (simp add: readOnlyStore_def)
  from merge_right_biased_union [of readOnlyStore 5000 "[''v1'' \<mapsto> readyEntry ''new'']"] w
  have 2: "addTranscriptsToCache 5000 [''v1'' \<mapsto> readyEntry ''new''] readOnlyStore = readOnlyStore"
    by blast
  from r 1 w 2 show ?thesis by blast
qed

text \<open>
  C7 as stated fails on a store that refuses the read and accepts the write: the merge
  reads nothing, takes the cache for empty and writes the new entry alone.  The stored
  cache held \<open>v1\<close> and \<open>v2\<close> before the merge and holds only \<open>v9\<close> after it.
\<close>

theorem merge_drops_unread_keys_counterexample:
  "readFails unreadableStore \<and> \<not> writeFails unreadableStore
   \<and> persistedIds unreadableStore = {''v1'', ''v2''}
   \<and> persistedIds (addTranscriptsToCache 5000 [''v9'' \<mapsto> readyEntry ''nine''] unreadableStore)
       = {''v9''}"
  by (simp add: unreadableStore_def transcriptStore_def persistedIds_def addTranscriptsToCache_def
      setTranscriptCache_def getTranscriptCache_def getItem_def setItem_def Let_def)
     auto

section \<open>Properties of the transcript batch fetch\<close>

text \<open>A task returns its video with the transcript the catalog gave, or with none.\<close>

lemma fst_fetchTask: "fst (fetchTask api v nt) = \<lparr>video = v, video_transcript = taskTranscript api v\<rparr>"
  by (simp add: fetchTask_def taskTranscript_def Let_def split: sum.splits)





text \<open>The batches: what they are made of, and how long they are.\<close>

lemma batches_Nil: "batches C [] = []"
  by (subst batches.simps) simp

lemma batches_step:
  assumes "0 < C" and "xs \<noteq> []"
  shows "batches C xs = take C xs # batches C (drop C xs)"
  using assms by (subst batches.simps) simp





text \<open>The number of batches still to run, one step of the loop later.\<close>

lemma div_add_one: "0 < (C::nat) \<Longrightarrow> (x + C) div C = Suc (x div C)"
  using div_add_self2 [of C x] by linarith

lemma ticks_step:
  assumes "0 < (C::nat)" "i < n"
  shows "(n - i + C - 1) div C = Suc ((n - (i + C) + C - 1) div C)"
proof (cases "i + C \<le> n")
  case True
  define x where "x = n - (i + C) + C - 1"
  have "n - i + C - 1 = x + C" using True assms unfolding x_def by linarith
  then show ?thesis unfolding x_def [symmetric] using div_add_one [OF assms(1)] by presburger
next
  case False
  define y where "y = n - i + C - 1"
  have a: "n - (i + C) + C - 1 = C - 1" using False by linarith
  have "C \<le> y" "y < 2 * C" using assms False unfolding y_def by linarith+
  then have "y div C = 1"
    by (intro div_nat_eqI) simp_all
  moreover have "(C - 1) div C = 0" using assms by simp
  ultimately show ?thesis unfolding a y_def by presburger
qed

lemma ticks_done: "0 < C \<Longrightarrow> \<not> i < n \<Longrightarrow> ticks C i n = []"
  by (simp add: ticks_def)

lemma ticks_next:
  assumes "0 < C" "i < n"
  shows "ticks C i n = (min (i + C) n, n) # ticks C (i + C) n"
proof -
  have "[0..<(n - i + C - 1) div C] = 0 # map Suc [0..<(n - (i + C) + C - 1) div C]"
    unfolding ticks_step [OF assms] by (simp add: upt_conv_Cons map_Suc_upt del: upt_Suc)
  then show ?thesis
    unfolding ticks_def by (simp add: comp_def add.assoc add.left_commute)
qed


text \<open>
  With a positive batch size the loop ends.  From index \<open>i\<close> on it adds the results of
  the remaining videos, makes the writes of the remaining batches, batch after batch and
  inside a batch in the order its tasks settle, and one progress call for each batch.
\<close>

lemma fetchTranscripts_loop_exact:
  assumes "0 < C"
  shows "fetchTranscripts_loop api settle vs C i st =
           Some \<lparr>results = results st @
                   map (\<lambda>v. \<lparr>video = v, video_transcript = taskTranscript api v\<rparr>) (drop i vs),
                 newTranscripts =
                   foldl (\<lambda>written v. snd (fetchTask api v written)) (newTranscripts st)
                     (concat (map settle (batches C (drop i vs)))),
                 progress = progress st @ ticks C i (length vs)\<rparr>"
proof (induction "length vs - i" arbitrary: i st rule: less_induct)
  case less
  show ?case
  proof (cases "i < length vs")
    case False
    then have "fetchTranscripts_loop api settle vs C i st = Some st"
      by (subst fetchTranscripts_loop.simps) simp
    with False assms show ?thesis by (simp add: ticks_done batches_Nil)
  next
    case True
    let ?batch = "take C (drop i vs)"
    let ?st' = "\<lparr>results = results st @ fst (fetchBatch api settle ?batch (newTranscripts st)),
                 newTranscripts = snd (fetchBatch api settle ?batch (newTranscripts st)),
                 progress = progress st @ [(min (i + C) (length vs), length vs)]\<rparr>"
    have lt: "length vs - (i + C) < length vs - i" using True assms by simp
    have step: "fetchTranscripts_loop api settle vs C i st
                = fetchTranscripts_loop api settle vs C (i + C) ?st'"
      using True by (subst fetchTranscripts_loop.simps) (simp add: split_beta Let_def)
    have ne: "drop i vs \<noteq> []" using True by simp
    have dd: "drop C (drop i vs) = drop (i + C) vs" by (simp add: add.commute)
    have bs: "batches C (drop i vs) = ?batch # batches C (drop (i + C) vs)"
      using batches_step [OF assms ne] unfolding dd .
    have split: "drop i vs = ?batch @ drop (i + C) vs"
      by (metis append_take_drop_id dd)
    have m: "map (\<lambda>v. \<lparr>video = v, video_transcript = taskTranscript api v\<rparr>) (drop i vs)
            = map (\<lambda>v. \<lparr>video = v, video_transcript = taskTranscript api v\<rparr>) ?batch
              @ map (\<lambda>v. \<lparr>video = v, video_transcript = taskTranscript api v\<rparr>) (drop (i + C) vs)"
      using arg_cong [OF split, of "map (\<lambda>v. \<lparr>video = v, video_transcript = taskTranscript api v\<rparr>)"]
      by (simp only: map_append)
    show ?thesis
      unfolding step less.hyps [OF lt] bs m ticks_next [OF assms True]
      by (simp add: fst_fetchTask fetchBatch_def)
  qed
qed








section \<open>Properties of the transcript load\<close>

lemma videoIds_videosToFetch: "videoIds (videosToFetch vs B) = videoIds vs - B"
  by (auto simp add: videoIds_def videosToFetch_def)

lemma cachedIds_filterDeleted: "cachedIds (filterDeleted ids tc) = cachedIds tc \<inter> ids"
  by (auto simp add: cachedIds_def filterDeleted_def validTranscripts_def
      split: option.splits if_splits)

text \<open>
  C1.  The fetch worklist of \<open>loadTranscripts\<close> is \<open>videos.filter((v) =>
  !cachedIds.has(v.id))\<close>.  Its id set is the id set \<open>A\<close> of the video list minus the
  cached id set \<open>B\<close>, for any cache and so for the pruned one; and it is the same for
  every video list with the id set \<open>A\<close> and every cache with the key set \<open>B\<close>, in
  whatever order they list their elements.
\<close>

theorem worklist_is_difference:
  "videoIds (videosToFetch vs (cachedIds tc)) = videoIds vs - cachedIds tc
   \<and> videoIds (videosToFetch vs (cachedIds (filterDeleted (videoIds vs) tc)))
       = videoIds vs - cachedIds (filterDeleted (videoIds vs) tc)
   \<and> (\<forall>vs' tc'. videoIds vs' = videoIds vs \<and> cachedIds tc' = cachedIds tc \<longrightarrow>
         videoIds (videosToFetch vs' (cachedIds tc')) = videoIds (videosToFetch vs (cachedIds tc)))"
  by (simp add: videoIds_videosToFetch)

text \<open>
  The videos \<open>v1\<close>, \<open>v2\<close> against a cache of \<open>v2\<close>, \<open>v9\<close>, and the same in another
  order and with a repetition: the worklist is \<open>v1\<close> both times.
\<close>

theorem worklist_is_difference_witness:
  "videoIds [mkVideo ''v2'', mkVideo ''v1'', mkVideo ''v1''] = videoIds [mkVideo ''v1'', mkVideo ''v2'']
   \<and> cachedIds twoCachedSwapped = cachedIds twoCached
   \<and> videoIds (videosToFetch [mkVideo ''v1'', mkVideo ''v2''] (cachedIds twoCached)) = {''v1''}
   \<and> videoIds (videosToFetch [mkVideo ''v2'', mkVideo ''v1'', mkVideo ''v1'']
        (cachedIds twoCachedSwapped)) = {''v1''}"
proof -
  have a: "videoIds [mkVideo ''v2'', mkVideo ''v1'', mkVideo ''v1'']
           = videoIds [mkVideo ''v1'', mkVideo ''v2'']"
    by (auto simp add: videoIds_def)
  have b: "cachedIds twoCachedSwapped = cachedIds twoCached"
    by (auto simp add: cachedIds_def twoCached_def twoCachedSwapped_def)
  have c: "videoIds [mkVideo ''v1'', mkVideo ''v2''] - cachedIds twoCached = {''v1''}"
    by (auto simp add: videoIds_def cachedIds_def twoCached_def mkVideo_def)
  from worklist_is_difference [of "[mkVideo ''v1'', mkVideo ''v2'']" twoCached] a b c
  show ?thesis by metis
qed

text \<open>
  Once the video list is there, from the cache or from a paging loop that ends, the load
  returns.
\<close>

lemma loadTranscripts_returns:
  assumes "loadTranscripts_videos api ls = Some x"
  shows "\<exists>r. loadTranscripts api settle now forceRefresh (ls, st) = Some r"
proof -
  have p: "0 < FETCH_CONCURRENCY" by (simp add: FETCH_CONCURRENCY_def)
  have f: "\<And>vs. \<exists>r. fetchTranscripts api settle vs FETCH_CONCURRENCY = Some r"
    unfolding fetchTranscripts_def fetchTranscripts_loop_exact [OF p] by simp
  show ?thesis
  proof (cases x)
    case (Inl e)
    with assms show ?thesis by (simp add: loadTranscripts_def)
  next
    case (Inr vs)
    define toFetch where "toFetch = videosToFetch vs (cachedIds (filterDeleted (videoIds vs)
       (if forceRefresh then None else getTranscriptCache ls)))"
    from f [of toFetch] obtain r where "fetchTranscripts api settle toFetch FETCH_CONCURRENCY = Some r"
      by blast
    with assms Inr show ?thesis
      unfolding toFetch_def by (simp add: loadTranscripts_def Let_def)
  qed
qed

text \<open>
  The filter on the cache object changes neither the worklist nor the results built from
  the cache: both only look up ids of the video list.
\<close>

lemma filterDeleted_worklist:
  "videosToFetch vs (cachedIds (filterDeleted (videoIds vs) tc)) = videosToFetch vs (cachedIds tc)"
  unfolding cachedIds_filterDeleted
  by (auto simp add: videosToFetch_def videoIds_def intro: filter_cong)

lemma filterDeleted_results:
  "cachedResults vs (filterDeleted (videoIds vs) tc) = cachedResults vs tc"
  by (cases tc) (auto simp add: cachedResults_def filterDeleted_def validTranscripts_def videoIds_def)

text \<open>The load on the example store, step by step.\<close>

lemma staleStore_videos: "loadTranscripts_videos api3 staleStore = Some (Inr [mkVideo ''v1''])"
  by (simp add: loadTranscripts_videos_def staleStore_def getVideoCache_def getItem_def
      parseVideoCache_def getCacheKey_def CACHE_KEY_PREFIX_def TRANSCRIPT_CACHE_KEY_def
      or_default_def)

lemma staleStore_transcripts:
  "getTranscriptCache staleStore
   = Some \<lparr>transcripts = [''v2'' \<mapsto> readyEntry ''two''], transcripts_fetchedAt = Num 0\<rparr>"
  by (simp add: staleStore_def getTranscriptCache_def getItem_def parseTranscriptCache_def)

lemma fetch_v1:
  "fetchTranscripts api3 id [mkVideo ''v1''] FETCH_CONCURRENCY
   = Some \<lparr>results = [\<lparr>video = mkVideo ''v1'', video_transcript = Some readyTranscript\<rparr>],
           newTranscripts = [''v1'' \<mapsto> readyEntry ''v1''],
           progress = [(1, 1)]\<rparr>"
proof -
  have b: "fetchBatch api3 id [mkVideo ''v1''] Map.empty
           = ([\<lparr>video = mkVideo ''v1'', video_transcript = Some readyTranscript\<rparr>],
              [''v1'' \<mapsto> readyEntry ''v1''])"
    by (simp add: fetchBatch_def fetchTask_def api3_def mkVideo_def readyTranscript_def
        readyEntry_def)
  show ?thesis
    unfolding fetchTranscripts_def FETCH_CONCURRENCY_def
    by (subst fetchTranscripts_loop.simps, subst fetchTranscripts_loop.simps) (simp add: b)
qed


lemma staleStore_load:
  "map_option fst (loadTranscripts api3 id 1000 False (staleStore, initialSearch))
   = Some loadedStore"
proof -
  have ids: "videoIds [mkVideo ''v1''] = {''v1''}"
    by (simp add: videoIds_def mkVideo_def)
  have c: "cachedIds (filterDeleted {''v1''} (getTranscriptCache staleStore)) = {}"
    unfolding cachedIds_filterDeleted staleStore_transcripts by (simp add: cachedIds_def)
  have f: "videosToFetch [mkVideo ''v1''] {} = [mkVideo ''v1'']"
    by (simp add: videosToFetch_def)
  show ?thesis
    unfolding loadTranscripts_def loadedStore_def
    by (simp add: staleStore_videos ids c f fetch_v1 Let_def)
qed

lemma persistedIds_staleStore: "persistedIds staleStore = {''v2''}"
  by (simp add: persistedIds_def staleStore_def)

lemma getTranscriptCache_loadedStore:
  "getTranscriptCache loadedStore
   = Some \<lparr>transcripts = [''v2'' \<mapsto> readyEntry ''two''] ++ [''v1'' \<mapsto> readyEntry ''v1''],
           transcripts_fetchedAt = Num 1000\<rparr>"
proof -
  have r: "\<not> readFails staleStore" and w: "\<not> writeFails staleStore"
    by (simp_all add: staleStore_def)
  show ?thesis
    unfolding loadedStore_def getTranscriptCache_add [OF r w] staleStore_transcripts by simp
qed

lemma persistedIds_loadedStore: "persistedIds loadedStore = {''v1'', ''v2''}"
  by (simp add: persistedIds_def loadedStore_def staleStore_def addTranscriptsToCache_def
      setTranscriptCache_def getTranscriptCache_def getItem_def setItem_def
      parseTranscriptCache_def Let_def)

lemma recreatedStore_videos:
  "loadTranscripts_videos api recreatedStore = Some (Inr [mkVideo ''v1'', mkVideo ''v2''])"
  by (simp add: loadTranscripts_videos_def recreatedStore_def setVideoCache_def getVideoCache_def
      getItem_def setItem_def parseVideoCache_def loadedStore_def addTranscriptsToCache_def
      setTranscriptCache_def staleStore_def Let_def)

lemma recreatedStore_transcripts:
  "getTranscriptCache recreatedStore = getTranscriptCache loadedStore"
  by (simp add: recreatedStore_def setVideoCache_def getTranscriptCache_def getItem_def
      setItem_def loadedStore_def addTranscriptsToCache_def setTranscriptCache_def
      staleStore_def Let_def getCacheKey_def CACHE_KEY_PREFIX_def TRANSCRIPT_CACHE_KEY_def
      or_default_def)

lemma recreatedStore_load:
  "map_option (\<lambda>r. (newCount (snd r), map video_transcript (videosWithTranscripts (snd r))))
     (loadTranscripts apiOther id 3000 False (recreatedStore, initialSearch))
   = Some (0, [Some (cachedToTranscript (readyEntry ''v1'')),
               Some (cachedToTranscript (readyEntry ''two''))])"
proof -
  have ids: "videoIds [mkVideo ''v1'', mkVideo ''v2''] = {''v1'', ''v2''}"
    by (simp add: videoIds_def mkVideo_def)
  have c: "cachedIds (filterDeleted {''v1'', ''v2''} (getTranscriptCache recreatedStore))
           = {''v1'', ''v2''}"
    unfolding cachedIds_filterDeleted recreatedStore_transcripts getTranscriptCache_loadedStore
    by (auto simp add: cachedIds_def)
  have f: "videosToFetch [mkVideo ''v1'', mkVideo ''v2''] {''v1'', ''v2''} = []"
    by (simp add: videosToFetch_def mkVideo_def)
  have rs: "cachedResults [mkVideo ''v1'', mkVideo ''v2'']
              (filterDeleted {''v1'', ''v2''} (getTranscriptCache recreatedStore))
            = [\<lparr>video = mkVideo ''v1'', video_transcript = Some (cachedToTranscript (readyEntry ''v1''))\<rparr>,
               \<lparr>video = mkVideo ''v2'', video_transcript = Some (cachedToTranscript (readyEntry ''two''))\<rparr>]"
    unfolding recreatedStore_transcripts getTranscriptCache_loadedStore
    by (simp add: cachedResults_def filterDeleted_def validTranscripts_def mkVideo_def
        readyEntry_def)
  show ?thesis
    unfolding loadTranscripts_def
    by (simp add: recreatedStore_videos ids c f rs Let_def)
qed

text \<open>
  C2, the code at the failing input.  The collection is \<open>v1\<close> alone and the persisted
  transcript cache holds an entry for \<open>v2\<close>, a video that is gone.  The load leaves the
  persisted cache with the keys \<open>v1\<close> and \<open>v2\<close>: \<open>v2\<close> is not in the collection and has
  not been removed.  When a video with the id \<open>v2\<close> is in the collection again, with
  another transcript in the catalog, the next load fetches nothing and shows for \<open>v2\<close>
  the transcript of the old entry.
\<close>

theorem deleted_video_stays_persisted:
  "loadTranscripts_videos api3 staleStore = Some (Inr [mkVideo ''v1''])
   \<and> videoIds [mkVideo ''v1''] = {''v1''}
   \<and> persistedIds staleStore = {''v2''}
   \<and> map_option fst (loadTranscripts api3 id 1000 False (staleStore, initialSearch))
       = Some loadedStore
   \<and> persistedIds loadedStore = {''v1'', ''v2''}
   \<and> ''v2'' \<notin> videoIds [mkVideo ''v1'']
   \<and> loadTranscripts_videos apiOther recreatedStore
       = Some (Inr [mkVideo ''v1'', mkVideo ''v2''])
   \<and> taskTranscript apiOther (mkVideo ''v2'') = Some otherTranscript
   \<and> map_option (\<lambda>r. (newCount (snd r), map video_transcript (videosWithTranscripts (snd r))))
       (loadTranscripts apiOther id 3000 False (recreatedStore, initialSearch))
       = Some (0, [Some (cachedToTranscript (readyEntry ''v1'')),
                   Some (cachedToTranscript (readyEntry ''two''))])
   \<and> cachedToTranscript (readyEntry ''two'') \<noteq> otherTranscript"
proof -
  have 1: "videoIds [mkVideo ''v1''] = {''v1''}" "''v2'' \<notin> videoIds [mkVideo ''v1'']"
    by (simp_all add: videoIds_def mkVideo_def)
  have 2: "taskTranscript apiOther (mkVideo ''v2'') = Some otherTranscript"
    by (simp add: taskTranscript_def apiOther_def mkVideo_def)
  have 3: "cachedToTranscript (readyEntry ''two'') \<noteq> otherTranscript"
    by (simp add: cachedToTranscript_def readyEntry_def otherTranscript_def)
  show ?thesis
    by (intro conjI)
       (fact staleStore_videos 1 persistedIds_staleStore staleStore_load
          persistedIds_loadedStore recreatedStore_videos 2 recreatedStore_load 3)+
qed


section \<open>Properties of the fetch wrapper\<close>

text \<open>One call of \<open>tellaFetch\<close>: a 429 before the third retry, and every other response.\<close>

lemma tellaFetch_retry_step:
  assumes "tellaApiKey \<noteq> []" and "net attempt = Inr res" and "http_status res = 429"
    and "attempt < 3"
  shows "tellaFetch tellaApiKey net attempt =
           (tellaFetch tellaApiKey net (Suc attempt))
             \<lparr>waits := waitMs res attempt # waits (tellaFetch tellaApiKey net (Suc attempt)),
              requests := Suc (requests (tellaFetch tellaApiKey net (Suc attempt)))\<rparr>"
  using assms by (subst tellaFetch.simps) (simp add: Let_def)

lemma tellaFetch_last:
  assumes "tellaApiKey \<noteq> []" and "net attempt = Inr res"
    and "http_status res \<noteq> 429 \<or> 3 \<le> attempt"
  shows "tellaFetch tellaApiKey net attempt =
           \<lparr>outcome = (if ok res
                        then (case json res of None \<Rightarrow> Inl SyntaxError | Some parsed \<Rightarrow> Inr parsed)
                        else Inl (HttpError (http_status res) (statusText res) (body res))),
            waits = (if http_status res = 429 then [waitMs res attempt] else []),
            requests = 1\<rparr>"
  using assms by (subst tellaFetch.simps) (auto simp add: Let_def)

lemma not_ok_429: "http_status res = 429 \<Longrightarrow> \<not> ok res"
  by (simp add: ok_def)

text \<open>The number of requests of a run, by the attempt it starts at.\<close>

lemma requests_bound: "requests (tellaFetch tellaApiKey net attempt) \<le> 4 - attempt \<or> requests (tellaFetch tellaApiKey net attempt) \<le> 1"
proof (induction tellaApiKey net attempt rule: tellaFetch.induct)
  case (1 tellaApiKey net attempt)
  show ?case
  proof (cases "tellaApiKey = []")
    case True
    then show ?thesis by (subst (1 2) tellaFetch.simps) simp
  next
    case False
    show ?thesis
    proof (cases "net attempt")
      case (Inl e)
      with False show ?thesis by (subst (1 2) tellaFetch.simps) simp
    next
      case (Inr res)
      show ?thesis
      proof (cases "http_status res = 429 \<and> attempt < 3")
        case True
        from "1.IH" [OF False Inr True]
        have "requests (tellaFetch tellaApiKey net (attempt + 1)) \<le> 4 - (attempt + 1)
              \<or> requests (tellaFetch tellaApiKey net (attempt + 1)) \<le> 1" .
        moreover have "requests (tellaFetch tellaApiKey net attempt)
              = Suc (requests (tellaFetch tellaApiKey net (attempt + 1)))"
          using tellaFetch_retry_step [where net = net and attempt = attempt and res = res,
              OF False Inr] True by simp
        ultimately show ?thesis using True by linarith
      next
        case c: False
        then have "http_status res \<noteq> 429 \<or> 3 \<le> attempt" by auto
        from tellaFetch_last [where net = net and attempt = attempt and res = res,
            OF False Inr this] show ?thesis by simp
      qed
    qed
  qed
qed

text \<open>A response other than 429 after \<open>n\<close> responses 429, for \<open>n\<close> up to three.\<close>

lemma tellaFetch_recovers_from:
  assumes "tellaApiKey \<noteq> []" and "n \<le> 3"
    and "\<forall>k<n. net k = Inr (rs k) \<and> http_status (rs k) = 429"
    and "net n = Inr res" and "http_status res \<noteq> 429" and "a \<le> n"
  shows "tellaFetch tellaApiKey net a =
           \<lparr>outcome = (if ok res
                        then (case json res of None \<Rightarrow> Inl SyntaxError | Some parsed \<Rightarrow> Inr parsed)
                        else Inl (HttpError (http_status res) (statusText res) (body res))),
            waits = map (\<lambda>k. waitMs (rs k) k) [a..<n],
            requests = Suc (n - a)\<rparr>"
  using assms(6)
proof (induction "n - a" arbitrary: a)
  case 0
  then have "a = n" by simp
  with tellaFetch_last [where net = net and attempt = n and res = res, OF assms(1) assms(4)]
    assms(5)
  show ?case by simp
next
  case (Suc d)
  then have lt: "a < n" and d: "d = n - Suc a" and le: "Suc a \<le> n" by simp_all
  from lt assms(3) have na: "net a = Inr (rs a)" and sa: "http_status (rs a) = 429" by simp_all
  from lt assms(2) have a3: "a < 3" by simp
  note step = tellaFetch_retry_step [where net = net and attempt = a and res = "rs a",
      OF assms(1) na sa a3]
  have up: "[a..<n] = a # [Suc a..<n]" using lt by (simp add: upt_conv_Cons)
  have sub: "Suc (n - a) = Suc (Suc (n - Suc a))" using lt by simp
  show ?case
    unfolding step Suc.hyps(1) [OF d le] up sub by simp
qed

text \<open>Four 429 responses in a row.\<close>

lemma tellaFetch_exhausted:
  assumes "tellaApiKey \<noteq> []"
    and "\<forall>k\<le>3. net k = Inr (rs k) \<and> http_status (rs k) = 429"
  shows "requests (tellaFetch tellaApiKey net 0) = 4
       \<and> waits (tellaFetch tellaApiKey net 0)
           = [waitMs (rs 0) 0, waitMs (rs 1) 1, waitMs (rs 2) 2, waitMs (rs 3) 3]
       \<and> outcome (tellaFetch tellaApiKey net 0)
           = Inl (HttpError 429 (statusText (rs 3)) (body (rs 3)))
"
proof -
  from assms(2) have n: "net 0 = Inr (rs 0)" "net 1 = Inr (rs 1)" "net 2 = Inr (rs 2)"
    "net 3 = Inr (rs 3)"
    and s: "http_status (rs 0) = 429" "http_status (rs 1) = 429" "http_status (rs 2) = 429"
    "http_status (rs 3) = 429"
    by simp_all
  have r3: "tellaFetch tellaApiKey net 3 =
      \<lparr>outcome = Inl (HttpError 429 (statusText (rs 3)) (body (rs 3))),
       waits = [waitMs (rs 3) 3], requests = 1\<rparr>"
    using tellaFetch_last [where net = net and attempt = 3 and res = "rs 3", OF assms(1) n(4)]
      s(4) not_ok_429 [OF s(4)] by simp
  have r2: "tellaFetch tellaApiKey net 2 =
      \<lparr>outcome = Inl (HttpError 429 (statusText (rs 3)) (body (rs 3))),
       waits = [waitMs (rs 2) 2, waitMs (rs 3) 3], requests = 2\<rparr>"
    using tellaFetch_retry_step [where net = net and attempt = 2 and res = "rs 2",
        OF assms(1) n(3) s(3)] r3 by (simp add: eval_nat_numeral)
  have r1: "tellaFetch tellaApiKey net 1 =
      \<lparr>outcome = Inl (HttpError 429 (statusText (rs 3)) (body (rs 3))),
       waits = [waitMs (rs 1) 1, waitMs (rs 2) 2, waitMs (rs 3) 3], requests = 3\<rparr>"
    using tellaFetch_retry_step [where net = net and attempt = 1 and res = "rs 1",
        OF assms(1) n(2) s(2)] r2 by (simp add: eval_nat_numeral)
  have r0: "tellaFetch tellaApiKey net 0 =
      \<lparr>outcome = Inl (HttpError 429 (statusText (rs 3)) (body (rs 3))),
       waits = [waitMs (rs 0) 0, waitMs (rs 1) 1, waitMs (rs 2) 2, waitMs (rs 3) 3],
       requests = 4\<rparr>"
    using tellaFetch_retry_step [where net = net and attempt = 0 and res = "rs 0",
        OF assms(1) n(1) s(1)] r1 by (simp add: eval_nat_numeral)
  show ?thesis unfolding r0 by simp
qed


text \<open>
  C6, as the code has it.  A call sends at most four requests: the first and up to
  three retries.  After \<open>n \<le> 3\<close> responses 429 the next response, when it is not a 429,
  decides the call, which has then sent \<open>n + 1\<close> requests and waited after each 429:
  the call resolves to the parsed body of a response that is ok, rejects with a
  \<open>SyntaxError\<close> when that body is no JSON, and rejects with the HTTP error otherwise.
  When all four responses are 429, the call has waited after each of them, also after
  the last, and then rejects with the 429 error of the last response.  The wait after
  the request of attempt \<open>k\<close> is the \<open>Retry-After\<close> seconds when the header gives a
  positive number of seconds, and \<open>500 * 2 ^ k\<close> milliseconds in every other case: no
  header, 0 seconds, or a date.
\<close>

theorem tellaFetch_retries:
  assumes "tellaApiKey \<noteq> []"
  shows "requests (tellaFetch tellaApiKey net 0) \<le> 4
       \<and> (\<forall>n res. n \<le> 3 \<and> (\<forall>k<n. net k = Inr (rs k) \<and> http_status (rs k) = 429)
                \<and> net n = Inr res \<and> http_status res \<noteq> 429 \<longrightarrow>
            tellaFetch tellaApiKey net 0 =
              \<lparr>outcome = (if ok res
                           then (case json res of None \<Rightarrow> Inl SyntaxError | Some parsed \<Rightarrow> Inr parsed)
                           else Inl (HttpError (http_status res) (statusText res) (body res))),
               waits = map (\<lambda>k. waitMs (rs k) k) [0..<n],
               requests = Suc n\<rparr>)
       \<and> ((\<forall>k\<le>3. net k = Inr (rs k) \<and> http_status (rs k) = 429) \<longrightarrow>
            requests (tellaFetch tellaApiKey net 0) = 4
          \<and> waits (tellaFetch tellaApiKey net 0)
              = [waitMs (rs 0) 0, waitMs (rs 1) 1, waitMs (rs 2) 2, waitMs (rs 3) 3]
          \<and> outcome (tellaFetch tellaApiKey net 0)
              = Inl (HttpError 429 (statusText (rs 3)) (body (rs 3))))
       \<and> (\<forall>res k s. retryAfterHeader res = Some (DelaySeconds s) \<and> 0 < s
                \<longrightarrow> waitMs res k = int s * 1000)
       \<and> (\<forall>res k. (\<forall>s. 0 < s \<longrightarrow> retryAfterHeader res \<noteq> Some (DelaySeconds s))
                \<longrightarrow> waitMs res k = 500 * 2 ^ k)"
proof -
  have b: "requests (tellaFetch tellaApiKey net 0) \<le> 4"
    using requests_bound [of tellaApiKey net 0] by auto
  have w1: "\<forall>res k s. retryAfterHeader res = Some (DelaySeconds s) \<and> 0 < s
                \<longrightarrow> waitMs res k = int s * 1000"
    by (simp add: waitMs_def retryAfter_def)
  have w2: "\<forall>res k. (\<forall>s. 0 < s \<longrightarrow> retryAfterHeader res \<noteq> Some (DelaySeconds s))
                \<longrightarrow> waitMs res k = 500 * 2 ^ k"
    by (auto simp add: waitMs_def retryAfter_def split: option.splits retry_after.splits)
  have r: "\<forall>n res. n \<le> 3 \<and> (\<forall>k<n. net k = Inr (rs k) \<and> http_status (rs k) = 429)
                \<and> net n = Inr res \<and> http_status res \<noteq> 429 \<longrightarrow>
            tellaFetch tellaApiKey net 0 =
              \<lparr>outcome = (if ok res
                           then (case json res of None \<Rightarrow> Inl SyntaxError | Some parsed \<Rightarrow> Inr parsed)
                           else Inl (HttpError (http_status res) (statusText res) (body res))),
               waits = map (\<lambda>k. waitMs (rs k) k) [0..<n],
               requests = Suc n\<rparr>"
  proof (intro allI impI)
    fix n res
    assume h: "n \<le> 3 \<and> (\<forall>k<n. net k = Inr (rs k) \<and> http_status (rs k) = 429)
                \<and> net n = Inr res \<and> http_status res \<noteq> 429"
    then have h1: "n \<le> 3" and h2: "\<forall>k<n. net k = Inr (rs k) \<and> http_status (rs k) = 429"
      and h3: "net n = Inr res" and h4: "http_status res \<noteq> 429"
      by blast+
    have z: "(0::nat) \<le> n" by simp
    from tellaFetch_recovers_from [where net = net and n = n and res = res and rs = rs and a = 0,
        OF assms h1 h2 h3 h4 z]
    show "tellaFetch tellaApiKey net 0 =
              \<lparr>outcome = (if ok res
                           then (case json res of None \<Rightarrow> Inl SyntaxError | Some parsed \<Rightarrow> Inr parsed)
                           else Inl (HttpError (http_status res) (statusText res) (body res))),
               waits = map (\<lambda>k. waitMs (rs k) k) [0..<n],
               requests = Suc n\<rparr>"
      by simp
  qed
  have e: "(\<forall>k\<le>3. net k = Inr (rs k) \<and> http_status (rs k) = 429) \<longrightarrow>
            requests (tellaFetch tellaApiKey net 0) = 4
          \<and> waits (tellaFetch tellaApiKey net 0)
              = [waitMs (rs 0) 0, waitMs (rs 1) 1, waitMs (rs 2) 2, waitMs (rs 3) 3]
          \<and> outcome (tellaFetch tellaApiKey net 0)
              = Inl (HttpError 429 (statusText (rs 3)) (body (rs 3)))"
    using tellaFetch_exhausted [OF assms, of net rs] by blast
  show ?thesis by (intro conjI) (fact b r e w1 w2)+
qed

text \<open>
  A service that always answers 429: four requests, the waits 500, 7000 (from the
  header), 2000 and 4000 milliseconds, and the error.  A service that answers 429 three
  times and then 200: four requests, three waits, and the body of the fourth response.
\<close>

theorem tellaFetch_retries_witness:
  "''key'' \<noteq> [] \<and> always429 0 = Inr (busy 0) \<and> always429 1 = Inr (busy 1)
   \<and> always429 2 = Inr (busy 2) \<and> always429 3 = Inr (busy 3)
   \<and> http_status (busy 0) = 429 \<and> http_status (busy 1) = 429
   \<and> http_status (busy 2) = 429 \<and> http_status (busy 3) = 429
   \<and> retryAfterHeader (busy 1) = Some (DelaySeconds 7) \<and> retryAfterHeader (busy 2) = None
   \<and> requests (tellaFetch ''key'' always429 0) = 4
   \<and> waits (tellaFetch ''key'' always429 0) = [500, 7000, 2000, 4000]
   \<and> outcome (tellaFetch ''key'' always429 0)
       = Inl (HttpError 429 ''Too Many Requests'' ''slow down'')
   \<and> thrice429 3 = Inr response200 \<and> http_status response200 \<noteq> 429
   \<and> tellaFetch ''key'' thrice429 0
       = \<lparr>outcome = Inr ''{}'', waits = [500, 1000, 2000], requests = 4\<rparr>
   \<and> http_status response204 \<noteq> 429
   \<and> tellaFetch ''key'' (\<lambda>k. Inr response204) 0
       = \<lparr>outcome = Inl SyntaxError, waits = [], requests = 1\<rparr>
   \<and> retryAfterHeader (busy 0\<lparr>retryAfterHeader := Some (HttpDate ''Wed, 21 Oct 2015 07:28:00 GMT'')\<rparr>)
       \<noteq> Some (DelaySeconds 7)
   \<and> waitMs (busy 0\<lparr>retryAfterHeader := Some (HttpDate ''Wed, 21 Oct 2015 07:28:00 GMT'')\<rparr>) 2
       = 2000"
proof -
  have k: "''key'' \<noteq> []" by simp
  have a: "\<forall>k\<le>3. always429 k = Inr (busy k) \<and> http_status (busy k) = 429"
    by (simp add: always429_def busy_def response429_def)
  have w: "waitMs (busy 0) 0 = 500" "waitMs (busy 1) 1 = 7000" "waitMs (busy 2) 2 = 2000"
    "waitMs (busy 3) 3 = 4000"
    by (simp_all add: waitMs_def retryAfter_def busy_def response429_def)
  have b: "statusText (busy 3) = ''Too Many Requests''" "body (busy 3) = ''slow down''"
    by (simp_all add: busy_def response429_def)
  have h: "retryAfterHeader (busy 1) = Some (DelaySeconds 7)" "retryAfterHeader (busy 2) = None"
    by (simp_all add: busy_def response429_def)
  from tellaFetch_retries [OF k, of always429 busy] a
  have 1: "requests (tellaFetch ''key'' always429 0) = 4
       \<and> waits (tellaFetch ''key'' always429 0) = [500, 7000, 2000, 4000]
       \<and> outcome (tellaFetch ''key'' always429 0)
           = Inl (HttpError 429 ''Too Many Requests'' ''slow down'')"
    unfolding w b by blast
  have t: "(3::nat) \<le> 3 \<and> (\<forall>k<3. thrice429 k = Inr response429 \<and> http_status response429 = 429)
           \<and> thrice429 3 = Inr response200 \<and> http_status response200 \<noteq> 429"
    by (simp add: thrice429_def response429_def response200_def)
  have u: "map (\<lambda>k. waitMs response429 k) [0..<3] = [500, 1000, 2000]"
    by (simp add: waitMs_def retryAfter_def response429_def upt_rec)
  have v: "ok response200" "json response200 = Some ''{}''"
    by (simp_all add: ok_def response200_def)
  from tellaFetch_retries [OF k, of thrice429 "\<lambda>k. response429"] t
  have "tellaFetch ''key'' thrice429 0 =
          \<lparr>outcome = (if ok response200
                       then (case json response200 of
                               None \<Rightarrow> Inl SyntaxError | Some parsed \<Rightarrow> Inr parsed)
                       else Inl (HttpError (http_status response200) (statusText response200)
                                   (body response200))),
           waits = map (\<lambda>k. waitMs response429 k) [0..<3],
           requests = Suc 3\<rparr>"
    by blast
  then have 2: "tellaFetch ''key'' thrice429 0
       = \<lparr>outcome = Inr ''{}'', waits = [500, 1000, 2000], requests = 4\<rparr>"
    unfolding u using v by simp
  have t4: "(0::nat) \<le> 3 \<and> (\<forall>k<(0::nat). (\<lambda>k. Inr response204) k = Inr (response429)
              \<and> http_status response429 = 429)
           \<and> (\<lambda>k. Inr response204) (0::nat) = (Inr response204 :: error + HttpResponse)
           \<and> http_status response204 \<noteq> 429"
    by (simp add: response204_def)
  have v4: "ok response204" "json response204 = None"
    by (simp_all add: ok_def response204_def)
  from tellaFetch_retries [OF k, of "\<lambda>k. Inr response204" "\<lambda>k. response429"] t4
  have "tellaFetch ''key'' (\<lambda>k. Inr response204) 0 =
          \<lparr>outcome = (if ok response204
                       then (case json response204 of
                               None \<Rightarrow> Inl SyntaxError | Some parsed \<Rightarrow> Inr parsed)
                       else Inl (HttpError (http_status response204) (statusText response204)
                                   (body response204))),
           waits = map (\<lambda>k. waitMs response429 k) [0..<0],
           requests = Suc 0\<rparr>"
    by blast
  then have 3: "tellaFetch ''key'' (\<lambda>k. Inr response204) 0
       = \<lparr>outcome = Inl SyntaxError, waits = [], requests = 1\<rparr>"
    using v4 by simp
  define dated where
    "dated = busy 0\<lparr>retryAfterHeader := Some (HttpDate ''Wed, 21 Oct 2015 07:28:00 GMT'')\<rparr>"
  have d1: "\<forall>s. 0 < s \<longrightarrow> retryAfterHeader dated \<noteq> Some (DelaySeconds s)"
    by (simp add: dated_def)
  from tellaFetch_retries [OF k, of always429 busy] d1
  have "waitMs dated 2 = 500 * 2 ^ 2" by blast
  then have 4: "waitMs dated 2 = 2000" by simp
  have 5: "retryAfterHeader dated \<noteq> Some (DelaySeconds 7)" by (simp add: dated_def)
  have 6: "http_status response204 \<noteq> 429" by (simp add: response204_def)
  from a h t 1 2 k 3 4 5 6 show ?thesis unfolding dated_def by simp
qed

text \<open>
  C6 as stated fails: after three attempts answered 429 the error does not reach the
  caller; a fourth request is sent, and when it succeeds so does the call.
\<close>

theorem tellaFetch_fourth_attempt_counterexample:
  "thrice429 0 = Inr response429 \<and> thrice429 1 = Inr response429
   \<and> thrice429 2 = Inr response429 \<and> http_status response429 = 429
   \<and> requests (tellaFetch ''key'' thrice429 0) = 4
   \<and> outcome (tellaFetch ''key'' thrice429 0) = Inr ''{}''"
proof -
  have k: "''key'' \<noteq> []" by simp
  have n: "thrice429 0 = Inr response429" "thrice429 1 = Inr response429"
    "thrice429 2 = Inr response429" "thrice429 3 = Inr response200"
    by (simp_all add: thrice429_def)
  have s: "http_status response429 = 429" by (simp add: response429_def)
  have t: "http_status response200 \<noteq> 429 \<or> 3 \<le> (3::nat)" by simp
  have r3: "tellaFetch ''key'' thrice429 3 = \<lparr>outcome = Inr ''{}'', waits = [], requests = 1\<rparr>"
    using tellaFetch_last [where net = thrice429 and attempt = 3 and res = response200,
        OF k n(4) t]
    by (simp add: response200_def ok_def)
  have r2: "requests (tellaFetch ''key'' thrice429 2) = 2
            \<and> outcome (tellaFetch ''key'' thrice429 2) = Inr ''{}''"
    using tellaFetch_retry_step [where net = thrice429 and attempt = 2 and res = response429,
        OF k n(3) s] r3 by (simp add: eval_nat_numeral)
  have r1: "requests (tellaFetch ''key'' thrice429 1) = 3
            \<and> outcome (tellaFetch ''key'' thrice429 1) = Inr ''{}''"
    using tellaFetch_retry_step [where net = thrice429 and attempt = 1 and res = response429,
        OF k n(2) s] r2 by (simp add: eval_nat_numeral)
  have r0: "requests (tellaFetch ''key'' thrice429 0) = 4
            \<and> outcome (tellaFetch ''key'' thrice429 0) = Inr ''{}''"
    using tellaFetch_retry_step [where net = thrice429 and attempt = 0 and res = response429,
        OF k n(1) s] r1 by (simp add: eval_nat_numeral)
  from n s r0 show ?thesis by simp
qed


section \<open>Properties of the browse load and the fallback pagination\<close>

text \<open>The accumulated list after a page: replaced without a cursor, extended with one.\<close>

lemma accumulate_first: "accumulate None newVideos prev = newVideos"
  by (simp add: accumulate_def or_null_def)

lemma accumulate_next:
  "c \<noteq> [] \<Longrightarrow> accumulate (Some c) newVideos prev
     = prev @ filter (\<lambda>v. id_v v \<notin> set (map id_v prev)) newVideos"
  by (simp add: accumulate_def or_null_def Let_def)

lemma accumulate_distinct:
  assumes "distinct (map id_v prev)" and "distinct (map id_v newVideos)"
  shows "distinct (map id_v (accumulate cur newVideos prev))"
  using assms by (auto simp add: accumulate_def Let_def distinct_map_filter) (metis image_eqI)

text \<open>A load with no cached entry and a failing full fetch.\<close>

lemma loadVideos_fallback:
  assumes "getVideoCache ls playlist = None"
    and "listAllVideos api playlist None [] = Some (Inl e)"
  shows "loadVideos api prefs now playlist (ls, st)
         = Some (ls, st\<lparr>isLoading_b := False, usePagination := True\<rparr>)"
  using assms by (simp add: loadVideos_def refreshAllVideos_def)

text \<open>
  C8.  When the cache read gives nothing and the full fetch is rejected, \<open>loadVideos\<close>
  returns: the store is untouched, the command is in fallback mode and no longer
  loading; its result is a state, never an error.  In that mode a page fetch without
  cursor returns the page the catalog gives for no cursor and makes it the accumulated
  list; a page fetch with a cursor appends to the accumulated list the videos of the page
  whose id is not in it yet.  The accumulated list stays free of repeated ids as long as
  no page repeats an id within itself.
\<close>

theorem fallback_pagination:
  "(getVideoCache ls playlist = None \<and> listAllVideos api playlist None [] = Some (Inl e) \<longrightarrow>
      loadVideos api prefs now playlist (ls, st)
        = Some (ls, st\<lparr>isLoading_b := False, usePagination := True\<rparr>))
   \<and> (\<forall>response.
        listVideos api \<lparr>params_playlistId = playlist, cursor = None, limit = Some 30\<rparr>
          = Inr response \<longrightarrow>
        paginatedFetch api playlist None st
          = Inr (\<lparr>data = response_videos response,
                   page_hasMore = hasMore (pagination response),
                   page_cursor = nextCursor (pagination response)\<rparr>,
                 st\<lparr>paginatedVideos := response_videos response\<rparr>))
   \<and> (\<forall>c response.
        c \<noteq> [] \<and>
        listVideos api \<lparr>params_playlistId = playlist, cursor = Some c, limit = Some 30\<rparr>
          = Inr response \<longrightarrow>
        paginatedFetch api playlist (Some c) st
          = Inr (\<lparr>data = response_videos response,
                   page_hasMore = hasMore (pagination response),
                   page_cursor = nextCursor (pagination response)\<rparr>,
                 st\<lparr>paginatedVideos :=
                      paginatedVideos st @
                      filter (\<lambda>v. id_v v \<notin> set (map id_v (paginatedVideos st)))
                        (response_videos response)\<rparr>))
   \<and> (\<forall>cur newVideos prev.
        distinct (map id_v prev) \<and> distinct (map id_v newVideos) \<longrightarrow>
        distinct (map id_v (accumulate cur newVideos prev)))"
proof (intro conjI allI impI)
  assume "getVideoCache ls playlist = None \<and> listAllVideos api playlist None [] = Some (Inl e)"
  then show "loadVideos api prefs now playlist (ls, st)
        = Some (ls, st\<lparr>isLoading_b := False, usePagination := True\<rparr>)"
    using loadVideos_fallback by blast
next
  fix response
  assume "listVideos api \<lparr>params_playlistId = playlist, cursor = None, limit = Some 30\<rparr>
          = Inr response"
  then show "paginatedFetch api playlist None st
          = Inr (\<lparr>data = response_videos response,
                   page_hasMore = hasMore (pagination response),
                   page_cursor = nextCursor (pagination response)\<rparr>,
                 st\<lparr>paginatedVideos := response_videos response\<rparr>)"
    by (simp add: paginatedFetch_def accumulate_first Let_def)
next
  fix c response
  assume "c \<noteq> [] \<and>
        listVideos api \<lparr>params_playlistId = playlist, cursor = Some c, limit = Some 30\<rparr>
          = Inr response"
  then show "paginatedFetch api playlist (Some c) st
          = Inr (\<lparr>data = response_videos response,
                   page_hasMore = hasMore (pagination response),
                   page_cursor = nextCursor (pagination response)\<rparr>,
                 st\<lparr>paginatedVideos :=
                      paginatedVideos st @
                      filter (\<lambda>v. id_v v \<notin> set (map id_v (paginatedVideos st)))
                        (response_videos response)\<rparr>)"
    by (simp add: paginatedFetch_def accumulate_next Let_def)
next
  fix cur :: "string option" and newVideos prev :: "Video list"
  assume "distinct (map id_v prev) \<and> distinct (map id_v newVideos)"
  then show "distinct (map id_v (accumulate cur newVideos prev))"
    using accumulate_distinct by blast
qed


text \<open>The example: an empty store and a catalog whose full fetch is rejected.\<close>

lemma getVideoCache_emptyStore: "getVideoCache emptyStore playlist = None"
  by (simp add: getVideoCache_def getItem_def emptyStore_def)

lemma listAllVideos_pagedApi: "listAllVideos pagedApi None None [] = Some (Inl NetworkError)"
  by (subst listAllVideos.simps) (simp add: pagedApi_def)

text \<open>
  The load ends in fallback mode; the first page gives \<open>v1\<close>, \<open>v2\<close>; the second page,
  \<open>v2\<close>, \<open>v3\<close>, adds \<open>v3\<close> alone.
\<close>

theorem fallback_pagination_witness:
  "getVideoCache emptyStore None = None
   \<and> listAllVideos pagedApi None None [] = Some (Inl NetworkError)
   \<and> loadVideos pagedApi (Preferences None) 0 None (emptyStore, initialBrowse)
       = Some (emptyStore, fallbackState)
   \<and> usePagination fallbackState
   \<and> map_sum id (paginatedVideos \<circ> snd) (paginatedFetch pagedApi None None fallbackState)
       = Inr [mkVideo ''v1'', mkVideo ''v2'']
   \<and> ''c1'' \<noteq> []
   \<and> map_sum id (paginatedVideos \<circ> snd) (paginatedFetch pagedApi None (Some ''c1'') onePage)
       = Inr [mkVideo ''v1'', mkVideo ''v2'', mkVideo ''v3'']
   \<and> distinct (map id_v [mkVideo ''v1'', mkVideo ''v2''])
   \<and> distinct (map id_v [mkVideo ''v2'', mkVideo ''v3''])
   \<and> distinct (map id_v (accumulate (Some ''c1'') [mkVideo ''v2'', mkVideo ''v3'']
                           [mkVideo ''v1'', mkVideo ''v2'']))"
proof -
  note t = fallback_pagination [of emptyStore None pagedApi NetworkError "Preferences None" 0]
  have 1: "loadVideos pagedApi (Preferences None) 0 None (emptyStore, initialBrowse)
           = Some (emptyStore, fallbackState)"
    using t [of initialBrowse] getVideoCache_emptyStore listAllVideos_pagedApi
    unfolding fallbackState_def by blast
  have 2: "usePagination fallbackState" by (simp add: fallbackState_def)
  have p1: "listVideos pagedApi \<lparr>params_playlistId = None, cursor = None, limit = Some 30\<rparr>
            = Inr \<lparr>response_videos = [mkVideo ''v1'', mkVideo ''v2''],
                    pagination = \<lparr>nextCursor = Some ''c1'', hasMore = True\<rparr>\<rparr>"
    by (simp add: pagedApi_def)
  have p2: "''c1'' \<noteq> [] \<and>
            listVideos pagedApi \<lparr>params_playlistId = None, cursor = Some ''c1'', limit = Some 30\<rparr>
            = Inr \<lparr>response_videos = [mkVideo ''v2'', mkVideo ''v3''],
                    pagination = \<lparr>nextCursor = None, hasMore = False\<rparr>\<rparr>"
    by (simp add: pagedApi_def)
  have "paginatedFetch pagedApi None None fallbackState
        = Inr (\<lparr>data = [mkVideo ''v1'', mkVideo ''v2''], page_hasMore = True,
                 page_cursor = Some ''c1''\<rparr>,
               fallbackState\<lparr>paginatedVideos := [mkVideo ''v1'', mkVideo ''v2'']\<rparr>)"
    using t [of fallbackState] p1 by force
  then have 3: "map_sum id (paginatedVideos \<circ> snd) (paginatedFetch pagedApi None None fallbackState)
                = Inr [mkVideo ''v1'', mkVideo ''v2'']"
    by simp
  have "paginatedFetch pagedApi None (Some ''c1'') onePage
        = Inr (\<lparr>data = [mkVideo ''v2'', mkVideo ''v3''], page_hasMore = False,
                 page_cursor = None\<rparr>,
               onePage\<lparr>paginatedVideos :=
                  paginatedVideos onePage @
                  filter (\<lambda>v. id_v v \<notin> set (map id_v (paginatedVideos onePage)))
                    [mkVideo ''v2'', mkVideo ''v3'']\<rparr>)"
    using t [of onePage] p2 by force
  then have 4: "map_sum id (paginatedVideos \<circ> snd)
                  (paginatedFetch pagedApi None (Some ''c1'') onePage)
                = Inr [mkVideo ''v1'', mkVideo ''v2'', mkVideo ''v3'']"
    by (simp add: onePage_def mkVideo_def)
  have d: "distinct (map id_v [mkVideo ''v1'', mkVideo ''v2''])
           \<and> distinct (map id_v [mkVideo ''v2'', mkVideo ''v3''])"
    by (simp add: mkVideo_def)
  with t [of initialBrowse]
  have 5: "distinct (map id_v (accumulate (Some ''c1'') [mkVideo ''v2'', mkVideo ''v3'']
                           [mkVideo ''v1'', mkVideo ''v2'']))"
    by blast
  from getVideoCache_emptyStore listAllVideos_pagedApi 1 2 3 p2 4 d 5
  show ?thesis by simp
qed


end
